theory Spec2Isabelle
  imports Main "HOL-Library.Multiset" "HOL-Library.Char_ord" "HOL-Library.List_Lexorder"
begin

section \<open>Go strings\<close>

text \<open>
  A Go \<^verbatim>\<open>string\<close> (and a \<^verbatim>\<open>[]byte\<close>) is a sequence of bytes; it is modelled as a
  \<^typ>\<open>string\<close>, a list of 8-bit characters. Comparison of strings with \<^verbatim>\<open><\<close> is the
  lexicographic order on bytes (\<^theory_text>\<open>Char_ord\<close>, \<^theory_text>\<open>List_Lexorder\<close>), as in Go.
\<close>

text \<open>\<^verbatim>\<open>strings.HasPrefix\<close>: \<^verbatim>\<open>len(s) >= len(prefix) && s[:len(prefix)] == prefix\<close>.\<close>

definition HasPrefix :: "string \<Rightarrow> string \<Rightarrow> bool" where
  "HasPrefix s p = (length p \<le> length s \<and> take (length p) s = p)"

definition HasSuffix :: "string \<Rightarrow> string \<Rightarrow> bool" where
  "HasSuffix s p = (length p \<le> length s \<and> drop (length s - length p) s = p)"

text \<open>\<^verbatim>\<open>strings.Contains\<close>: some position of \<open>s\<close> starts an occurrence of \<open>sub\<close>.\<close>

fun Contains :: "string \<Rightarrow> string \<Rightarrow> bool" where
  "Contains [] sub = (sub = [])"
| "Contains (c # cs) sub = (HasPrefix (c # cs) sub \<or> Contains cs sub)"

text \<open>
  \<^verbatim>\<open>strings.Split(s, sep)\<close> for a separator of one byte (both call sites pass one:
  \<^verbatim>\<open>"\n"\<close> and \<^verbatim>\<open>"/"\<close>). The result is never empty: \<^verbatim>\<open>Split("", sep)\<close> is \<^verbatim>\<open>[""]\<close>.
\<close>

fun Split :: "string \<Rightarrow> char \<Rightarrow> string list" where
  "Split [] sep = [[]]"
| "Split (c # cs) sep =
     (let rest = Split cs sep
      in if c = sep then [] # rest else (c # hd rest) # tl rest)"

text \<open>
  \<^verbatim>\<open>strings.SplitN(s, sep, 2)\<close> for a separator of one byte: the text before the first
  separator and the text after it, or \<open>s\<close> alone when there is no separator.
\<close>

definition SplitN2 :: "string \<Rightarrow> char \<Rightarrow> string list" where
  "SplitN2 s sep =
     (if sep \<in> set s
      then [takeWhile (\<lambda>c. c \<noteq> sep) s, tl (dropWhile (\<lambda>c. c \<noteq> sep) s)]
      else [s])"

text \<open>
  \<^verbatim>\<open>unicode.IsSpace\<close> holds of the code points U+0009..U+000D, U+0020, U+0085, U+00A0,
  U+1680, U+2000..U+200A, U+2028, U+2029, U+202F, U+205F and U+3000. \<open>whiteSpace\<close> lists
  their UTF-8 encodings. A byte sequence decodes to one of these code points exactly
  when it is one of these encodings, so trimming white-space runes from a string is
  removing these byte sequences.
\<close>

definition whiteSpace :: "string list" where
  "whiteSpace =
     [[CHR 0x09], [CHR 0x0A], [CHR 0x0B], [CHR 0x0C], [CHR 0x0D], [CHR 0x20],
      [CHR 0xC2, CHR 0x85], [CHR 0xC2, CHR 0xA0],
      [CHR 0xE1, CHR 0x9A, CHR 0x80],
      [CHR 0xE2, CHR 0x80, CHR 0x80], [CHR 0xE2, CHR 0x80, CHR 0x81],
      [CHR 0xE2, CHR 0x80, CHR 0x82], [CHR 0xE2, CHR 0x80, CHR 0x83],
      [CHR 0xE2, CHR 0x80, CHR 0x84], [CHR 0xE2, CHR 0x80, CHR 0x85],
      [CHR 0xE2, CHR 0x80, CHR 0x86], [CHR 0xE2, CHR 0x80, CHR 0x87],
      [CHR 0xE2, CHR 0x80, CHR 0x88], [CHR 0xE2, CHR 0x80, CHR 0x89],
      [CHR 0xE2, CHR 0x80, CHR 0x8A],
      [CHR 0xE2, CHR 0x80, CHR 0xA8], [CHR 0xE2, CHR 0x80, CHR 0xA9],
      [CHR 0xE2, CHR 0x80, CHR 0xAF],
      [CHR 0xE2, CHR 0x81, CHR 0x9F],
      [CHR 0xE3, CHR 0x80, CHR 0x80]]"

text \<open>The number of bytes of the white-space rune \<open>s\<close> starts with (0 when it starts with none).\<close>

definition spaceAtStart :: "string \<Rightarrow> nat" where
  "spaceAtStart s = (case find (HasPrefix s) whiteSpace of None \<Rightarrow> 0 | Some w \<Rightarrow> length w)"

text \<open>The number of bytes of the white-space rune \<open>s\<close> ends with (0 when it ends with none).\<close>

definition spaceAtEnd :: "string \<Rightarrow> nat" where
  "spaceAtEnd s = (case find (HasSuffix s) whiteSpace of None \<Rightarrow> 0 | Some w \<Rightarrow> length w)"

lemma spaceAtStart_le: "spaceAtStart s \<le> length s"
  by (auto simp: spaceAtStart_def HasPrefix_def split: option.splits dest!: find_Some_iff[THEN iffD1])

lemma spaceAtEnd_le: "spaceAtEnd s \<le> length s"
  by (auto simp: spaceAtEnd_def HasSuffix_def split: option.splits dest!: find_Some_iff[THEN iffD1])

function TrimLeftSpace :: "string \<Rightarrow> string" where
  "TrimLeftSpace s = (if spaceAtStart s = 0 then s else TrimLeftSpace (drop (spaceAtStart s) s))"
  by pat_completeness auto
termination
proof (relation "measure length")
  show "wf (measure length)" by simp
next
  fix s :: string
  assume "spaceAtStart s \<noteq> 0"
  moreover have "spaceAtStart s \<le> length s" by (rule spaceAtStart_le)
  ultimately show "(drop (spaceAtStart s) s, s) \<in> measure length" by simp
qed

function TrimRightSpace :: "string \<Rightarrow> string" where
  "TrimRightSpace s =
     (if spaceAtEnd s = 0 then s else TrimRightSpace (take (length s - spaceAtEnd s) s))"
  by pat_completeness auto
termination
proof (relation "measure length")
  show "wf (measure length)" by simp
next
  fix s :: string
  assume "spaceAtEnd s \<noteq> 0"
  moreover have "spaceAtEnd s \<le> length s" by (rule spaceAtEnd_le)
  ultimately show "(take (length s - spaceAtEnd s) s, s) \<in> measure length" by simp
qed

text \<open>\<^verbatim>\<open>strings.TrimSpace\<close>: leading white space is removed, then trailing white space.\<close>

definition TrimSpace :: "string \<Rightarrow> string" where
  "TrimSpace s = TrimRightSpace (TrimLeftSpace s)"

text \<open>
  \<^verbatim>\<open>strings.Fields\<close>: the maximal runs of bytes between white-space runes. \<open>cur\<close> is the
  field being read. A byte that starts no white-space rune belongs to the field (the
  continuation bytes of a rune start no white-space rune).
\<close>

function Fields_scan :: "string \<Rightarrow> string \<Rightarrow> string list" where
  "Fields_scan s cur =
     (if s = [] then (if cur = [] then [] else [cur])
      else if spaceAtStart s = 0 then Fields_scan (tl s) (cur @ [hd s])
      else (if cur = [] then [] else [cur]) @ Fields_scan (drop (spaceAtStart s) s) [])"
  by pat_completeness auto
termination
proof (relation "measure (\<lambda>(s, cur). length s)")
  show "wf (measure (\<lambda>(s, cur). length s))" by simp
next
  fix s cur :: string
  assume "s \<noteq> []"
  then show "((tl s, cur @ [hd s]), (s, cur)) \<in> measure (\<lambda>(s, cur). length s)"
    by (cases s) simp_all
next
  fix s cur :: string
  assume "s \<noteq> []" "spaceAtStart s \<noteq> 0"
  then show "((drop (spaceAtStart s) s, []), (s, cur)) \<in> measure (\<lambda>(s, cur). length s)"
    by simp
qed

definition Fields :: "string \<Rightarrow> string list" where
  "Fields s = Fields_scan s []"

text \<open>\<^verbatim>\<open>strings.Trim(s, cutset)\<close> for a cutset of ASCII bytes.\<close>

definition Trim :: "string \<Rightarrow> string \<Rightarrow> string" where
  "Trim s cutset = rev (dropWhile (\<lambda>c. c \<in> set cutset) (rev (dropWhile (\<lambda>c. c \<in> set cutset) s)))"

section \<open>Regular expressions\<close>

text \<open>
  The patterns of \<^verbatim>\<open>regexp.MustCompile\<close> that the parsers use, as syntax trees, and a
  matcher with the semantics of Go's \<^verbatim>\<open>regexp\<close>: the leftmost match, and among the matches
  that start there the one a backtracking search finds first (greedy repetition prefers
  more iterations, an optional part prefers to be present). The matcher reads bytes. The
  literals and classes of the three patterns are ASCII, a negated class and \<^verbatim>\<open>.\<close>
  accept every byte of a non-ASCII rune, and every match starts and ends next to an
  ASCII byte or at an end of the text, so matching bytes and matching runes agree.
\<close>

datatype regex =
    Eps
  | Lit char
  | Class "char list"
  | NotClass "char list"
  | Seq regex regex
  | Star regex
  | Opt regex
  | Group nat regex
  | Bol
  | Eol

text \<open>
  A matcher state: the number of bytes consumed, the rest of the text, and the
  capture groups closed so far (the latest first).
\<close>

type_synonym mstate = "nat \<times> string \<times> (nat \<times> string) list"

text \<open>
  \<open>rmatch r st\<close> lists the states in which a match of \<open>r\<close> started in \<open>st\<close> can end, in
  the order of preference of the backtracking search. An iteration of a star that
  consumes nothing is not repeated.
\<close>

function rmatch :: "regex \<Rightarrow> mstate \<Rightarrow> mstate list" where
  "rmatch Eps st = [st]"
| "rmatch (Lit c) (i, s, g) =
     (case s of [] \<Rightarrow> [] | x # r \<Rightarrow> if x = c then [(Suc i, r, g)] else [])"
| "rmatch (Class cs) (i, s, g) =
     (case s of [] \<Rightarrow> [] | x # r \<Rightarrow> if x \<in> set cs then [(Suc i, r, g)] else [])"
| "rmatch (NotClass cs) (i, s, g) =
     (case s of [] \<Rightarrow> [] | x # r \<Rightarrow> if x \<in> set cs then [] else [(Suc i, r, g)])"
| "rmatch (Seq a b) st = concat (map (rmatch b) (rmatch a st))"
| "rmatch (Star a) (i, s, g) =
     concat (map (\<lambda>st'. if length (fst (snd st')) < length s then rmatch (Star a) st' else [])
                 (rmatch a (i, s, g)))
     @ [(i, s, g)]"
| "rmatch (Opt a) st = rmatch a st @ [st]"
| "rmatch (Group k a) (i, s, g) =
     map (\<lambda>st'. (fst st', fst (snd st'), (k, take (fst st' - i) s) # snd (snd st')))
         (rmatch a (i, s, g))"
| "rmatch Bol (i, s, g) = (if i = 0 then [(i, s, g)] else [])"
| "rmatch Eol (i, s, g) = (if s = [] then [(i, s, g)] else [])"
  by pat_completeness auto
termination
  by (relation "measures [\<lambda>(r, st). size r, \<lambda>(r, st). length (fst (snd st))]") auto

text \<open>\<^verbatim>\<open>a+\<close> is \<^verbatim>\<open>aa*\<close>.\<close>

definition Plus :: "regex \<Rightarrow> regex" where
  "Plus a = Seq a (Star a)"

fun seqs :: "regex list \<Rightarrow> regex" where
  "seqs [] = Eps"
| "seqs (r # rs) = Seq r (seqs rs)"

text \<open>
  The leftmost match: the first offset at which the pattern matches, with the preferred
  match there. The pattern is tried at the end of the text too (it may match the
  empty string).
\<close>

fun rsearch :: "regex \<Rightarrow> nat \<Rightarrow> string \<Rightarrow> (nat \<times> mstate) option" where
  "rsearch re i [] = (case rmatch re (i, [], []) of m # _ \<Rightarrow> Some (i, m) | [] \<Rightarrow> None)"
| "rsearch re i (c # r) =
     (case rmatch re (i, c # r, []) of
        m # _ \<Rightarrow> Some (i, m)
      | [] \<Rightarrow> rsearch re (Suc i) r)"

text \<open>
  \<^verbatim>\<open>(*Regexp).FindStringSubmatch\<close> for a pattern with \<open>n\<close> groups: \<^verbatim>\<open>nil\<close> (the empty list)
  when nothing matches, else the matched text followed by the text of groups 1 to \<open>n\<close>,
  the empty string for a group that took no part in the match.
\<close>

definition FindStringSubmatch :: "regex \<Rightarrow> nat \<Rightarrow> string \<Rightarrow> string list" where
  "FindStringSubmatch re n s =
     (case rsearch re 0 s of
        None \<Rightarrow> []
      | Some (i, (j, r, g)) \<Rightarrow>
          take (j - i) (drop i s)
          # map (\<lambda>k. case map_of g k of None \<Rightarrow> [] | Some v \<Rightarrow> v) [1 ..< Suc n])"

text \<open>The class \<^verbatim>\<open>\s\<close> of Go's regexp syntax: \<^verbatim>\<open>[\t\n\f\r ]\<close>.\<close>

definition reSpace :: regex where
  "reSpace = Class [CHR 0x09, CHR 0x0A, CHR 0x0C, CHR 0x0D, CHR 0x20]"

text \<open>\<^verbatim>\<open>['"]\<close> and \<^verbatim>\<open>[^'"]\<close>.\<close>

definition reQuote :: regex where
  "reQuote = Class [CHR 0x27, CHR 0x22]"

definition reNotQuote :: regex where
  "reNotQuote = NotClass [CHR 0x27, CHR 0x22]"

text \<open>\<^verbatim>\<open>[a-zA-Z0-9_-]\<close>.\<close>

definition reNameChar :: regex where
  "reNameChar = Class ''abcdefghijklmnopqrstuvwxyzABCDEFGHIJKLMNOPQRSTUVWXYZ0123456789_-''"

text \<open>\<^verbatim>\<open>.\<close>: every character but the newline.\<close>

definition reAny :: regex where
  "reAny = NotClass [CHR 0x0A]"

section \<open>The dependency analyzer (internal/analyzer/dependencies.go)\<close>

subsection \<open>Data\<close>

record Dependency =
  Name :: string
  Version :: string
  Type :: string

text \<open>\<open>TotalCount\<close> and \<open>TotalDeps\<close> are Go \<^verbatim>\<open>int\<close>s that hold lengths of slices and their sums.\<close>

record DependencyFile =
  Filename :: string
  FileType :: string
  Dependencies :: "Dependency list"
  TotalCount :: int

record DependencyAnalysis =
  Files :: "DependencyFile list"
  TotalDeps :: int
  Languages :: "string list"
  HasLockFile :: bool

text \<open>\<^verbatim>\<open>github.TreeEntry\<close>: the fields the analyzer reads (\<open>EntryType\<close> is the field \<^verbatim>\<open>Type\<close>).\<close>

record TreeEntry =
  Path :: string
  EntryType :: string

record depFileInfo =
  path :: string
  fileType :: string

text \<open>A Go \<^verbatim>\<open>error\<close> value.\<close>

datatype go_error = Err string

text \<open>
  The struct \<^verbatim>\<open>pkg\<close> that \<^verbatim>\<open>json.Unmarshal\<close> fills in \<^verbatim>\<open>parsePackageJSON\<close>. A
  \<^verbatim>\<open>map[string]string\<close> is given by the list of its entries (a \<^verbatim>\<open>nil\<close> map by the empty
  list).
\<close>

record package_json =
  pkgDependencies :: "(string \<times> string) list"
  pkgDevDependencies :: "(string \<times> string) list"
  pkgPeerDeps :: "(string \<times> string) list"

text \<open>
  What the source leaves to the Go runtime and the standard library, as parameters:
  \<^item> \<open>Unmarshal\<close>: \<^verbatim>\<open>json.Unmarshal(content, &pkg)\<close>, an error or the decoded struct;
  \<^item> \<open>mapRange\<close>: the order in which a \<^verbatim>\<open>range\<close> loop visits the entries of a map (Go leaves
    it unspecified, and it varies from run to run);
  \<^item> \<open>sortSlice\<close>: \<^verbatim>\<open>sort.Slice(x, less)\<close>, which sorts by \<open>less\<close> and is documented as
    not guaranteed to be stable;
  \<^item> \<open>DecodeString\<close>: \<^verbatim>\<open>base64.StdEncoding.DecodeString\<close>.
\<close>

record runtime =
  Unmarshal :: "string \<Rightarrow> go_error + package_json"
  mapRange :: "(string \<times> string) list \<Rightarrow> (string \<times> string) list"
  sortSlice :: "Dependency list \<Rightarrow> (Dependency \<Rightarrow> Dependency \<Rightarrow> bool) \<Rightarrow> Dependency list"
  DecodeString :: "string \<Rightarrow> go_error + string"

text \<open>\<^verbatim>\<open>github.Client\<close>: \<^verbatim>\<open>GetFileContent(owner, repo, path)\<close> is base64 text or an error.\<close>

record Client =
  GetFileContent :: "string \<Rightarrow> string \<Rightarrow> string \<Rightarrow> go_error + string"

subsection \<open>Detecting manifests and lock files\<close>

definition depFilePatterns :: "(string \<times> string) list" where
  "depFilePatterns =
     [(''package.json'', ''npm''),
      (''go.mod'', ''go''),
      (''requirements.txt'', ''python''),
      (''Pipfile'', ''python''),
      (''pyproject.toml'', ''python''),
      (''Cargo.toml'', ''rust''),
      (''Gemfile'', ''ruby'')]"

primrec findDependencyFiles_loop :: "TreeEntry list \<Rightarrow> depFileInfo list \<Rightarrow> depFileInfo list" where
  "findDependencyFiles_loop [] files = files"
| "findDependencyFiles_loop (entry # tree) files =
     (if EntryType entry \<noteq> ''blob'' then findDependencyFiles_loop tree files
      else
        (let parts = Split (Path entry) (CHR ''/'');
             filename = last parts
         in case map_of depFilePatterns filename of
              Some ft \<Rightarrow>
                findDependencyFiles_loop tree (files @ [\<lparr>path = Path entry, fileType = ft\<rparr>])
            | None \<Rightarrow> findDependencyFiles_loop tree files))"

definition findDependencyFiles :: "TreeEntry list \<Rightarrow> depFileInfo list" where
  "findDependencyFiles tree = findDependencyFiles_loop tree []"

definition lockFiles :: "string list" where
  "lockFiles =
     [''package-lock.json'', ''yarn.lock'', ''pnpm-lock.yaml'', ''go.sum'',
      ''Pipfile.lock'', ''poetry.lock'', ''Cargo.lock'', ''Gemfile.lock'']"

text \<open>The inner loop of \<^verbatim>\<open>hasLockFile\<close>: \<open>True\<close> is the \<^verbatim>\<open>return true\<close>.\<close>

fun hasLockFile_names :: "string \<Rightarrow> string list \<Rightarrow> bool" where
  "hasLockFile_names filename [] = False"
| "hasLockFile_names filename (lockFile # rest) =
     (if filename = lockFile then True else hasLockFile_names filename rest)"

fun hasLockFile :: "TreeEntry list \<Rightarrow> bool" where
  "hasLockFile [] = False"
| "hasLockFile (entry # tree) =
     (let parts = Split (Path entry) (CHR ''/'');
          filename = last parts
      in if hasLockFile_names filename lockFiles then True else hasLockFile tree)"

subsection \<open>The parsers\<close>

definition cleanVersion :: "string \<Rightarrow> string" where
  "cleanVersion v = TrimSpace v"

definition pkgEntries :: "string \<Rightarrow> (string \<times> string) list \<Rightarrow> Dependency list" where
  "pkgEntries t kvs =
     map (\<lambda>(name, version). \<lparr>Name = name, Version = cleanVersion version, Type = t\<rparr>) kvs"

text \<open>
  \<^verbatim>\<open>parsePackageJSON\<close>: the three \<^verbatim>\<open>range\<close> loops append to \<^verbatim>\<open>deps\<close> in the order
  \<open>mapRange\<close> visits each map; \<^verbatim>\<open>sort.Slice\<close> then sorts by \<^verbatim>\<open>deps[i].Name < deps[j].Name\<close>.
\<close>

definition parsePackageJSON :: "runtime \<Rightarrow> string \<Rightarrow> Dependency list \<times> string" where
  "parsePackageJSON rt content =
     (case Unmarshal rt content of
        Inl err \<Rightarrow> ([], ''npm'')
      | Inr pkg \<Rightarrow>
          (let deps = [];
               deps = deps @ pkgEntries ''production'' (mapRange rt (pkgDependencies pkg));
               deps = deps @ pkgEntries ''dev'' (mapRange rt (pkgDevDependencies pkg));
               deps = deps @ pkgEntries ''peer'' (mapRange rt (pkgPeerDeps pkg))
           in (sortSlice rt deps (\<lambda>a b. Name a < Name b), ''npm'')))"

primrec parseGoMod_loop :: "string list \<Rightarrow> bool \<Rightarrow> Dependency list \<Rightarrow> Dependency list" where
  "parseGoMod_loop [] inRequire deps = deps"
| "parseGoMod_loop (l # lines) inRequire deps =
     (let line = TrimSpace l in
      if HasPrefix line ''require ('' then parseGoMod_loop lines True deps
      else if line = '')'' then parseGoMod_loop lines False deps
      else if HasPrefix line ''require '' \<and> \<not> Contains line ''('' then
        (case Fields line of
           p0 # p1 # p2 # _ \<Rightarrow>
             parseGoMod_loop lines inRequire
               (deps @ [\<lparr>Name = p1, Version = p2, Type = ''production''\<rparr>])
         | _ \<Rightarrow> parseGoMod_loop lines inRequire deps)
      else if inRequire \<and> line \<noteq> [] \<and> \<not> HasPrefix line ''//'' then
        (case Fields line of
           p0 # p1 # _ \<Rightarrow>
             (let depType = (if Contains line ''// indirect'' then ''indirect'' else ''production'')
              in parseGoMod_loop lines inRequire
                   (deps @ [\<lparr>Name = p0, Version = p1, Type = depType\<rparr>]))
         | _ \<Rightarrow> parseGoMod_loop lines inRequire deps)
      else parseGoMod_loop lines inRequire deps)"

definition parseGoMod :: "string \<Rightarrow> Dependency list \<times> string" where
  "parseGoMod content = (parseGoMod_loop (Split content (CHR 0x0A)) False [], ''go'')"

text \<open>\<^verbatim>\<open>^([a-zA-Z0-9_-]+)\s*([=<>!~]+.*)$\<close>\<close>

definition versionPattern :: regex where
  "versionPattern =
     seqs [Bol, Group 1 (Plus reNameChar), Star reSpace,
           Group 2 (Seq (Plus (Class ''=<>!~'')) (Star reAny)), Eol]"

text \<open>\<^verbatim>\<open>^([a-zA-Z0-9_-]+)\s*$\<close>\<close>

definition simplePattern :: regex where
  "simplePattern = seqs [Bol, Group 1 (Plus reNameChar), Star reSpace, Eol]"

primrec parseRequirementsTxt_loop :: "string list \<Rightarrow> Dependency list \<Rightarrow> Dependency list" where
  "parseRequirementsTxt_loop [] deps = deps"
| "parseRequirementsTxt_loop (l # lines) deps =
     (let line = TrimSpace l in
      if line = [] \<or> HasPrefix line ''#'' \<or> HasPrefix line ''-''
      then parseRequirementsTxt_loop lines deps
      else
        (case FindStringSubmatch versionPattern 2 line of
           m0 # m1 # m2 # _ \<Rightarrow>
             parseRequirementsTxt_loop lines
               (deps @ [\<lparr>Name = m1, Version = TrimSpace m2, Type = ''production''\<rparr>])
         | _ \<Rightarrow>
             (case FindStringSubmatch simplePattern 1 line of
                m0 # m1 # _ \<Rightarrow>
                  parseRequirementsTxt_loop lines
                    (deps @ [\<lparr>Name = m1, Version = ''*'', Type = ''production''\<rparr>])
              | _ \<Rightarrow> parseRequirementsTxt_loop lines deps)))"

definition parseRequirementsTxt :: "string \<Rightarrow> Dependency list \<times> string" where
  "parseRequirementsTxt content =
     (parseRequirementsTxt_loop (Split content (CHR 0x0A)) [], ''python'')"

primrec parseCargoToml_loop ::
  "string list \<Rightarrow> bool \<Rightarrow> bool \<Rightarrow> Dependency list \<Rightarrow> Dependency list" where
  "parseCargoToml_loop [] inDeps inDevDeps deps = deps"
| "parseCargoToml_loop (l # lines) inDeps inDevDeps deps =
     (let line = TrimSpace l in
      if line = ''[dependencies]'' then parseCargoToml_loop lines True False deps
      else if line = ''[dev-dependencies]'' then parseCargoToml_loop lines False True deps
      else if HasPrefix line ''['' then parseCargoToml_loop lines False False deps
      else if (inDeps \<or> inDevDeps) \<and> Contains line ''='' then
        (case SplitN2 line (CHR ''='') of
           [p0, p1] \<Rightarrow>
             (let name = TrimSpace p0;
                  version = Trim (TrimSpace p1) [CHR 0x22, CHR 0x27];
                  depType = (if inDevDeps then ''dev'' else ''production'')
              in parseCargoToml_loop lines inDeps inDevDeps
                   (deps @ [\<lparr>Name = name, Version = version, Type = depType\<rparr>]))
         | _ \<Rightarrow> parseCargoToml_loop lines inDeps inDevDeps deps)
      else parseCargoToml_loop lines inDeps inDevDeps deps)"

definition parseCargoToml :: "string \<Rightarrow> Dependency list \<times> string" where
  "parseCargoToml content =
     (parseCargoToml_loop (Split content (CHR 0x0A)) False False [], ''rust'')"

text \<open>\<^verbatim>\<open>gem\s+['"]([^'"]+)['"](?:\s*,\s*['"]([^'"]+)['"])?\<close>\<close>

definition gemPattern :: regex where
  "gemPattern =
     seqs [Lit (CHR ''g''), Lit (CHR ''e''), Lit (CHR ''m''), Plus reSpace,
           reQuote, Group 1 (Plus reNotQuote), reQuote,
           Opt (seqs [Star reSpace, Lit (CHR '',''), Star reSpace,
                      reQuote, Group 2 (Plus reNotQuote), reQuote])]"

primrec parseGemfile_loop :: "string list \<Rightarrow> Dependency list \<Rightarrow> Dependency list" where
  "parseGemfile_loop [] deps = deps"
| "parseGemfile_loop (l # lines) deps =
     (let line = TrimSpace l in
      if HasPrefix line ''#'' \<or> line = [] then parseGemfile_loop lines deps
      else
        (case FindStringSubmatch gemPattern 2 line of
           m0 # m1 # ms \<Rightarrow>
             (let version = (case ms of m2 # _ \<Rightarrow> if m2 \<noteq> [] then m2 else ''*'' | [] \<Rightarrow> ''*'')
              in parseGemfile_loop lines
                   (deps @ [\<lparr>Name = m1, Version = version, Type = ''production''\<rparr>]))
         | _ \<Rightarrow> parseGemfile_loop lines deps))"

definition parseGemfile :: "string \<Rightarrow> Dependency list \<times> string" where
  "parseGemfile content = (parseGemfile_loop (Split content (CHR 0x0A)) [], ''ruby'')"

subsection \<open>The parsers with the run-time checks of Go\<close>

text \<open>
  The parsers return \<^verbatim>\<open>([]Dependency, string)\<close> and no \<^verbatim>\<open>error\<close>: the one way they could
  signal an error is a run-time panic. The statements of the four line parsers that can
  panic are their index expressions (\<^verbatim>\<open>parts[1]\<close>, \<^verbatim>\<open>matches[2]\<close>, ...): Go checks each
  index against the length of the slice and panics with \<^verbatim>\<open>index out of range [i] with
  length n\<close>. The definitions below are the four parsers again, statement by statement,
  with every index expression read through \<open>sliceIndex\<close> and a panic ending the call.
  (The three patterns given to \<^verbatim>\<open>regexp.MustCompile\<close> are constants that compile.
  \<^verbatim>\<open>parsePackageJSON\<close> ranges over maps, where a \<^verbatim>\<open>nil\<close> map is an empty one;
  \<^verbatim>\<open>json.Unmarshal\<close> reports a failure as the \<^verbatim>\<open>error\<close> it returns; and the two index
  expressions of the parser, \<^verbatim>\<open>deps[i]\<close> and \<^verbatim>\<open>deps[j]\<close>, stand in the comparison that
  \<^verbatim>\<open>sort.Slice\<close> calls with positions of the slice it sorts: \<open>parsePackageJSON_less\<close>
  below.)
\<close>

datatype go_panic = IndexOutOfRange nat nat

definition sliceIndex :: "'a list \<Rightarrow> nat \<Rightarrow> go_panic + 'a" where
  "sliceIndex xs i = (if i < length xs then Inr (xs ! i) else Inl (IndexOutOfRange i (length xs)))"

definition andThen :: "go_panic + 'a \<Rightarrow> ('a \<Rightarrow> go_panic + 'b) \<Rightarrow> go_panic + 'b" where
  "andThen r f = (case r of Inl p \<Rightarrow> Inl p | Inr v \<Rightarrow> f v)"

primrec parseGoMod_checked_loop ::
  "string list \<Rightarrow> bool \<Rightarrow> Dependency list \<Rightarrow> go_panic + Dependency list" where
  "parseGoMod_checked_loop [] inRequire deps = Inr deps"
| "parseGoMod_checked_loop (l # lines) inRequire deps =
     (let line = TrimSpace l in
      if HasPrefix line ''require ('' then parseGoMod_checked_loop lines True deps
      else if line = '')'' then parseGoMod_checked_loop lines False deps
      else if HasPrefix line ''require '' \<and> \<not> Contains line ''('' then
        (let parts = Fields line in
         if length parts \<ge> 3 then
           andThen (sliceIndex parts 1) (\<lambda>name.
           andThen (sliceIndex parts 2) (\<lambda>version.
             parseGoMod_checked_loop lines inRequire
               (deps @ [\<lparr>Name = name, Version = version, Type = ''production''\<rparr>])))
         else parseGoMod_checked_loop lines inRequire deps)
      else if inRequire \<and> line \<noteq> [] \<and> \<not> HasPrefix line ''//'' then
        (let parts = Fields line in
         if length parts \<ge> 2 then
           (let depType = (if Contains line ''// indirect'' then ''indirect'' else ''production'')
            in andThen (sliceIndex parts 0) (\<lambda>name.
               andThen (sliceIndex parts 1) (\<lambda>version.
                 parseGoMod_checked_loop lines inRequire
                   (deps @ [\<lparr>Name = name, Version = version, Type = depType\<rparr>]))))
         else parseGoMod_checked_loop lines inRequire deps)
      else parseGoMod_checked_loop lines inRequire deps)"

definition parseGoMod_checked :: "string \<Rightarrow> go_panic + Dependency list \<times> string" where
  "parseGoMod_checked content =
     andThen (parseGoMod_checked_loop (Split content (CHR 0x0A)) False [])
       (\<lambda>deps. Inr (deps, ''go''))"

primrec parseRequirementsTxt_checked_loop ::
  "string list \<Rightarrow> Dependency list \<Rightarrow> go_panic + Dependency list" where
  "parseRequirementsTxt_checked_loop [] deps = Inr deps"
| "parseRequirementsTxt_checked_loop (l # lines) deps =
     (let line = TrimSpace l in
      if line = [] \<or> HasPrefix line ''#'' \<or> HasPrefix line ''-''
      then parseRequirementsTxt_checked_loop lines deps
      else
        (let matches = FindStringSubmatch versionPattern 2 line in
         if length matches \<ge> 3 then
           andThen (sliceIndex matches 1) (\<lambda>name.
           andThen (sliceIndex matches 2) (\<lambda>m2.
             parseRequirementsTxt_checked_loop lines
               (deps @ [\<lparr>Name = name, Version = TrimSpace m2, Type = ''production''\<rparr>])))
         else
           (let matches = FindStringSubmatch simplePattern 1 line in
            if length matches \<ge> 2 then
              andThen (sliceIndex matches 1) (\<lambda>name.
                parseRequirementsTxt_checked_loop lines
                  (deps @ [\<lparr>Name = name, Version = ''*'', Type = ''production''\<rparr>]))
            else parseRequirementsTxt_checked_loop lines deps)))"

definition parseRequirementsTxt_checked :: "string \<Rightarrow> go_panic + Dependency list \<times> string" where
  "parseRequirementsTxt_checked content =
     andThen (parseRequirementsTxt_checked_loop (Split content (CHR 0x0A)) [])
       (\<lambda>deps. Inr (deps, ''python''))"

primrec parseCargoToml_checked_loop ::
  "string list \<Rightarrow> bool \<Rightarrow> bool \<Rightarrow> Dependency list \<Rightarrow> go_panic + Dependency list" where
  "parseCargoToml_checked_loop [] inDeps inDevDeps deps = Inr deps"
| "parseCargoToml_checked_loop (l # lines) inDeps inDevDeps deps =
     (let line = TrimSpace l in
      if line = ''[dependencies]'' then parseCargoToml_checked_loop lines True False deps
      else if line = ''[dev-dependencies]'' then parseCargoToml_checked_loop lines False True deps
      else if HasPrefix line ''['' then parseCargoToml_checked_loop lines False False deps
      else if (inDeps \<or> inDevDeps) \<and> Contains line ''='' then
        (let parts = SplitN2 line (CHR ''='') in
         if length parts = 2 then
           andThen (sliceIndex parts 0) (\<lambda>p0.
           andThen (sliceIndex parts 1) (\<lambda>p1.
             (let name = TrimSpace p0;
                  version = Trim (TrimSpace p1) [CHR 0x22, CHR 0x27];
                  depType = (if inDevDeps then ''dev'' else ''production'')
              in parseCargoToml_checked_loop lines inDeps inDevDeps
                   (deps @ [\<lparr>Name = name, Version = version, Type = depType\<rparr>]))))
         else parseCargoToml_checked_loop lines inDeps inDevDeps deps)
      else parseCargoToml_checked_loop lines inDeps inDevDeps deps)"

definition parseCargoToml_checked :: "string \<Rightarrow> go_panic + Dependency list \<times> string" where
  "parseCargoToml_checked content =
     andThen (parseCargoToml_checked_loop (Split content (CHR 0x0A)) False False [])
       (\<lambda>deps. Inr (deps, ''rust''))"

primrec parseGemfile_checked_loop ::
  "string list \<Rightarrow> Dependency list \<Rightarrow> go_panic + Dependency list" where
  "parseGemfile_checked_loop [] deps = Inr deps"
| "parseGemfile_checked_loop (l # lines) deps =
     (let line = TrimSpace l in
      if HasPrefix line ''#'' \<or> line = [] then parseGemfile_checked_loop lines deps
      else
        (let matches = FindStringSubmatch gemPattern 2 line in
         if length matches \<ge> 2 then
           andThen (if length matches \<ge> 3
                    then andThen (sliceIndex matches 2) (\<lambda>m2. Inr (m2 \<noteq> []))
                    else Inr False) (\<lambda>given.
           andThen (if given then sliceIndex matches 2 else Inr ''*'') (\<lambda>version.
           andThen (sliceIndex matches 1) (\<lambda>name.
             parseGemfile_checked_loop lines
               (deps @ [\<lparr>Name = name, Version = version, Type = ''production''\<rparr>]))))
         else parseGemfile_checked_loop lines deps))"

definition parseGemfile_checked :: "string \<Rightarrow> go_panic + Dependency list \<times> string" where
  "parseGemfile_checked content =
     andThen (parseGemfile_checked_loop (Split content (CHR 0x0A)) [])
       (\<lambda>deps. Inr (deps, ''ruby''))"

text \<open>
  The comparison \<^verbatim>\<open>parsePackageJSON\<close> gives to \<^verbatim>\<open>sort.Slice\<close>:
  \<^verbatim>\<open>func(i, j int) bool { return deps[i].Name < deps[j].Name }\<close>.
\<close>

definition parsePackageJSON_less :: "Dependency list \<Rightarrow> nat \<Rightarrow> nat \<Rightarrow> go_panic + bool" where
  "parsePackageJSON_less deps i j =
     andThen (sliceIndex deps i) (\<lambda>a.
     andThen (sliceIndex deps j) (\<lambda>b. Inr (Name a < Name b)))"

subsection \<open>The aggregator\<close>

fun contains :: "string list \<Rightarrow> string \<Rightarrow> bool" where
  "contains [] item = False"
| "contains (s # slice) item = (if s = item then True else contains slice item)"

text \<open>
  The \<^verbatim>\<open>switch df.fileType\<close> of \<^verbatim>\<open>AnalyzeDependencies\<close>. A \<^verbatim>\<open>fileType\<close> it has no case for
  leaves \<^verbatim>\<open>deps\<close> \<^verbatim>\<open>nil\<close> and \<^verbatim>\<open>fileType\<close> empty.
\<close>

definition AnalyzeDependencies_switch ::
  "runtime \<Rightarrow> string \<Rightarrow> string \<Rightarrow> Dependency list \<times> string" where
  "AnalyzeDependencies_switch rt ft decoded =
     (if ft = ''npm'' then parsePackageJSON rt decoded
      else if ft = ''go'' then parseGoMod decoded
      else if ft = ''python'' then parseRequirementsTxt decoded
      else if ft = ''rust'' then parseCargoToml decoded
      else if ft = ''ruby'' then parseGemfile decoded
      else ([], []))"

text \<open>
  The loop of \<^verbatim>\<open>AnalyzeDependencies\<close> over \<^verbatim>\<open>depFiles\<close>; each \<^verbatim>\<open>continue\<close> is a
  recursive call with the analysis unchanged.
\<close>

primrec AnalyzeDependencies_loop ::
  "runtime \<Rightarrow> Client \<Rightarrow> string \<Rightarrow> string \<Rightarrow> depFileInfo list \<Rightarrow> DependencyAnalysis
   \<Rightarrow> DependencyAnalysis" where
  "AnalyzeDependencies_loop rt client owner repo [] analysis = analysis"
| "AnalyzeDependencies_loop rt client owner repo (df # depFiles) analysis =
     (case GetFileContent client owner repo (path df) of
        Inl err \<Rightarrow> AnalyzeDependencies_loop rt client owner repo depFiles analysis
      | Inr content \<Rightarrow>
          (case DecodeString rt content of
             Inl err \<Rightarrow> AnalyzeDependencies_loop rt client owner repo depFiles analysis
           | Inr decoded \<Rightarrow>
               (let (deps, ft) = AnalyzeDependencies_switch rt (fileType df) decoded
                in if length deps > 0 then
                     AnalyzeDependencies_loop rt client owner repo depFiles
                       (analysis
                          \<lparr>Files := Files analysis @
                             [\<lparr>Filename = path df, FileType = ft, Dependencies = deps,
                               TotalCount = int (length deps)\<rparr>],
                           TotalDeps := TotalDeps analysis + int (length deps),
                           Languages :=
                             (if \<not> contains (Languages analysis) ft
                              then Languages analysis @ [ft]
                              else Languages analysis)\<rparr>)
                   else AnalyzeDependencies_loop rt client owner repo depFiles analysis)))"

text \<open>
  \<^verbatim>\<open>AnalyzeDependencies\<close> returns the analysis and a \<^verbatim>\<open>nil\<close> error (\<open>None\<close>) on every path.
  The parameter \<^verbatim>\<open>branch\<close> is not used by the body.
\<close>

definition AnalyzeDependencies ::
  "runtime \<Rightarrow> Client \<Rightarrow> string \<Rightarrow> string \<Rightarrow> string \<Rightarrow> TreeEntry list
   \<Rightarrow> DependencyAnalysis \<times> go_error option" where
  "AnalyzeDependencies rt client owner repo branch fileTree =
     (let analysis = \<lparr>Files = [], TotalDeps = 0, Languages = [], HasLockFile = False\<rparr>;
          depFiles = findDependencyFiles fileTree;
          analysis = AnalyzeDependencies_loop rt client owner repo depFiles analysis;
          analysis = analysis\<lparr>HasLockFile := hasLockFile fileTree\<rparr>
      in (analysis, None))"

section \<open>The exports (internal/ui/export.go)\<close>

subsection \<open>Data\<close>

text \<open>A \<^verbatim>\<open>time.Time\<close>, as an instant; how it prints is left to \<open>Format\<close> below.\<close>

type_synonym Time = int

text \<open>\<^verbatim>\<open>github.Contributor\<close> and \<^verbatim>\<open>github.Repo\<close>: the fields the exports read.\<close>

record Contributor =
  Login :: string
  Commits :: int

record Repo =
  FullName :: string
  Description :: string
  Stars :: int
  Forks :: int
  OpenIssues :: int
  CreatedAt :: Time
  PushedAt :: Time
  DefaultBranch :: string
  HTMLURL :: string

text \<open>
  \<^verbatim>\<open>AnalysisResult\<close>. \<open>Repo\<close> is a pointer (\<open>None\<close> is \<^verbatim>\<open>nil\<close>). \<open>CommitLog\<close> is the field
  \<^verbatim>\<open>Commits\<close> (of a type \<^verbatim>\<open>github.Commit\<close> the exports only count), \<open>LanguageBytes\<close> the
  map \<^verbatim>\<open>Languages\<close>, given by its entries.
\<close>

record 'commit AnalysisResult =
  Repo :: "Repo option"
  CommitLog :: "'commit list"
  Contributors :: "Contributor list"
  FileTree :: "TreeEntry list"
  LanguageBytes :: "(string \<times> int) list"
  HealthScore :: int
  BusFactor :: int
  BusRisk :: string
  MaturityScore :: int
  MaturityLevel :: string

text \<open>The structs of the JSON document; a primed field has the name without the prime.\<close>

record RepoExport =
  FullName' :: string
  Description' :: string
  Stars' :: int
  Forks' :: int
  OpenIssues' :: int
  CreatedAt' :: string
  LastPush :: string
  DefaultBranch' :: string
  URL :: string

record MetricsExport =
  HealthScore' :: int
  BusFactor' :: int
  BusRisk' :: string
  MaturityScore' :: int
  MaturityLevel' :: string

record ContributorExport =
  Login' :: string
  Commits' :: int

record ExportData =
  ExportedAt :: string
  Repository :: RepoExport
  Metrics :: MetricsExport
  Languages' :: "(string \<times> int) list"
  TopContributors :: "ContributorExport list"
  CommitCount :: int

text \<open>
  What the exports take from the operating system and the standard library:
  \<^item> \<open>Now\<close>: \<^verbatim>\<open>time.Now()\<close>, and \<open>Format t layout\<close>: \<^verbatim>\<open>t.Format(layout)\<close>;
  \<^item> \<open>Create\<close>: the error of \<^verbatim>\<open>os.Create(filename)\<close>, if any;
  \<^item> \<open>WriteError\<close>: the error of writing the content to the file, if any;
  \<^item> \<open>rangeLanguages\<close>: the order in which \<^verbatim>\<open>range\<close> visits the map of languages;
  \<^item> \<open>FormatPercent bytes total\<close>: the text \<^verbatim>\<open>%.1f\<close> prints for
    \<^verbatim>\<open>float64(bytes) / float64(total) * 100\<close>.
\<close>

record system =
  Now :: Time
  Format :: "Time \<Rightarrow> string \<Rightarrow> string"
  Create :: "string \<Rightarrow> go_error option"
  WriteError :: "string \<Rightarrow> go_error option"
  rangeLanguages :: "(string \<times> int) list \<Rightarrow> (string \<times> int) list"
  FormatPercent :: "int \<Rightarrow> int \<Rightarrow> string"

text \<open>
  What a call of an export does: it panics, it returns an error, or it writes
  the content to the named file and returns \<^verbatim>\<open>nil\<close>.
\<close>

datatype 'a export_result = Panics | Fails go_error | Writes string 'a

subsection \<open>Formatting integers\<close>

text \<open>The verb \<^verbatim>\<open>%d\<close> of \<^verbatim>\<open>fmt.Sprintf\<close> on an \<^verbatim>\<open>int\<close>: decimal digits, with a sign when negative.\<close>

function digits :: "nat \<Rightarrow> string" where
  "digits n = (if n < 10 then [char_of (48 + n)] else digits (n div 10) @ [char_of (48 + n mod 10)])"
  by pat_completeness auto
termination
  by (relation "measure id") auto

definition Sprintf_d :: "int \<Rightarrow> string" where
  "Sprintf_d i = (if i < 0 then CHR ''-'' # digits (nat (- i)) else digits (nat i))"

text \<open>Addition of Go \<^verbatim>\<open>int\<close>s (64 bits, two's complement).\<close>

definition add_int64 :: "int \<Rightarrow> int \<Rightarrow> int" where
  "add_int64 a b = (a + b + 2 ^ 63) mod 2 ^ 64 - 2 ^ 63"

subsection \<open>\<^verbatim>\<open>ExportJSON\<close>\<close>

text \<open>
  The loop \<^verbatim>\<open>for i := 0; i < maxContribs; i++\<close> of \<^verbatim>\<open>ExportJSON\<close>; \<open>None\<close> is the panic of
  an index out of range.
\<close>

function ExportJSON_loop ::
  "nat \<Rightarrow> nat \<Rightarrow> Contributor list \<Rightarrow> ContributorExport list \<Rightarrow> ContributorExport list option" where
  "ExportJSON_loop i maxContribs contributors topContribs =
     (if i < maxContribs then
        (if i < length contributors then
           ExportJSON_loop (Suc i) maxContribs contributors
             (topContribs @
                [\<lparr>Login' = Login (contributors ! i), Commits' = Commits (contributors ! i)\<rparr>])
         else None)
      else Some topContribs)"
  by pat_completeness auto
termination
  by (relation "measure (\<lambda>(i, maxContribs, _, _). maxContribs - i)") auto

definition ExportJSON ::
  "system \<Rightarrow> 'commit AnalysisResult \<Rightarrow> string \<Rightarrow> ExportData export_result" where
  "ExportJSON sys data filename =
     (let maxContribs = 10;
          maxContribs = (if length (Contributors data) < maxContribs
                         then length (Contributors data) else maxContribs)
      in case ExportJSON_loop 0 maxContribs (Contributors data) [] of
           None \<Rightarrow> Panics
         | Some topContribs \<Rightarrow>
             (case Repo data of
                None \<Rightarrow> Panics
              | Some repo \<Rightarrow>
                  (let export =
                     \<lparr>ExportedAt = Format sys (Now sys) ''2006-01-02T15:04:05Z07:00'',
                      Repository =
                        \<lparr>FullName' = FullName repo,
                         Description' = Description repo,
                         Stars' = Stars repo,
                         Forks' = Forks repo,
                         OpenIssues' = OpenIssues repo,
                         CreatedAt' = Format sys (CreatedAt repo) ''2006-01-02'',
                         LastPush = Format sys (PushedAt repo) ''2006-01-02'',
                         DefaultBranch' = DefaultBranch repo,
                         URL = HTMLURL repo\<rparr>,
                      Metrics =
                        \<lparr>HealthScore' = HealthScore data,
                         BusFactor' = BusFactor data,
                         BusRisk' = BusRisk data,
                         MaturityScore' = MaturityScore data,
                         MaturityLevel' = MaturityLevel data\<rparr>,
                      Languages' = LanguageBytes data,
                      TopContributors = topContribs,
                      CommitCount = int (length (CommitLog data))\<rparr>
                   in case Create sys filename of
                        Some err \<Rightarrow> Fails err
                      | None \<Rightarrow>
                          (case WriteError sys filename of
                             Some err \<Rightarrow> Fails err
                           | None \<Rightarrow> Writes filename export))))"

subsection \<open>\<^verbatim>\<open>ExportMarkdown\<close>\<close>

primrec ExportMarkdown_total :: "(string \<times> int) list \<Rightarrow> int \<Rightarrow> int" where
  "ExportMarkdown_total [] total' = total'"
| "ExportMarkdown_total (kv # languages) total' =
     ExportMarkdown_total languages (add_int64 total' (snd kv))"

primrec ExportMarkdown_languages ::
  "system \<Rightarrow> (string \<times> int) list \<Rightarrow> int \<Rightarrow> string \<Rightarrow> string" where
  "ExportMarkdown_languages sys [] total' md = md"
| "ExportMarkdown_languages sys (kv # languages) total' md =
     ExportMarkdown_languages sys languages total'
       (md @ ''- '' @ fst kv @ '': '' @ FormatPercent sys (snd kv) total' @ ''%\<newline>'')"

text \<open>The loop over the contributors; \<open>None\<close> is the panic of an index out of range.\<close>

function ExportMarkdown_loop ::
  "nat \<Rightarrow> nat \<Rightarrow> Contributor list \<Rightarrow> string \<Rightarrow> string option" where
  "ExportMarkdown_loop i maxContribs contributors md =
     (if i < maxContribs then
        (if i < length contributors then
           (let c = contributors ! i
            in ExportMarkdown_loop (Suc i) maxContribs contributors
                 (md @ Sprintf_d (int i + 1) @ ''. '' @ Login c @ '' ('' @ Sprintf_d (Commits c)
                     @ '' commits)\<newline>''))
         else None)
      else Some md)"
  by pat_completeness auto
termination
  by (relation "measure (\<lambda>(i, maxContribs, _, _). maxContribs - i)") auto

definition ExportMarkdown ::
  "system \<Rightarrow> 'commit AnalysisResult \<Rightarrow> string \<Rightarrow> string export_result" where
  "ExportMarkdown sys data filename =
     (case Create sys filename of
        Some err \<Rightarrow> Fails err
      | None \<Rightarrow>
          (case Repo data of
             None \<Rightarrow> Panics
           | Some repo \<Rightarrow>
               (let md = ''# Analysis for '' @ FullName repo @ ''\<newline>\<newline>'';
                    md = md @ ''*Exported: '' @ Format sys (Now sys) ''2006-01-02 15:04''
                            @ ''*\<newline>\<newline>'';
                    md = md @ ''## Repository Info\<newline>'';
                    md = md @ ''- **Stars:** '' @ Sprintf_d (Stars repo) @ ''\<newline>'';
                    md = md @ ''- **Forks:** '' @ Sprintf_d (Forks repo) @ ''\<newline>'';
                    md = md @ ''- **Open Issues:** '' @ Sprintf_d (OpenIssues repo) @ ''\<newline>'';
                    md = md @ ''- **Created:** '' @ Format sys (CreatedAt repo) ''2006-01-02''
                            @ ''\<newline>'';
                    md = md @ ''- **URL:** '' @ HTMLURL repo @ ''\<newline>\<newline>'';
                    md = md @ ''## Metrics\<newline>'';
                    md = md @ ''- **Health Score:** '' @ Sprintf_d (HealthScore data)
                            @ ''/100\<newline>'';
                    md = md @ ''- **Bus Factor:** '' @ Sprintf_d (BusFactor data) @ '' (''
                            @ BusRisk data @ '')\<newline>'';
                    md = md @ ''- **Maturity:** '' @ MaturityLevel data @ '' (''
                            @ Sprintf_d (MaturityScore data) @ '')\<newline>'';
                    md = md @ ''- **Commits (1 year):** ''
                            @ Sprintf_d (int (length (CommitLog data))) @ ''\<newline>'';
                    md = md @ ''- **Contributors:** ''
                            @ Sprintf_d (int (length (Contributors data))) @ ''\<newline>\<newline>'';
                    md = md @ ''## Languages\<newline>'';
                    total' = ExportMarkdown_total (rangeLanguages sys (LanguageBytes data)) 0;
                    md = ExportMarkdown_languages sys (rangeLanguages sys (LanguageBytes data))
                           total' md;
                    md = md @ ''\<newline>'';
                    md = md @ ''## Top Contributors\<newline>'';
                    maxContribs = 10;
                    maxContribs = (if length (Contributors data) < maxContribs
                                   then length (Contributors data) else maxContribs)
                in case ExportMarkdown_loop 0 maxContribs (Contributors data) md of
                     None \<Rightarrow> Panics
                   | Some md \<Rightarrow>
                       (case WriteError sys filename of
                          Some err \<Rightarrow> Fails err
                        | None \<Rightarrow> Writes filename md))))"

section \<open>Notions the properties are stated with\<close>

text \<open>The final segment of a path: the text after its last \<^verbatim>\<open>/\<close>.\<close>

definition baseName :: "string \<Rightarrow> string" where
  "baseName p = rev (takeWhile (\<lambda>c. c \<noteq> CHR ''/'') (rev p))"

text \<open>
  The record a detected manifest contributes to the report: none when the fetch fails,
  when the content is not base64, or when the parse yields no dependency.
\<close>

definition manifestFile ::
  "runtime \<Rightarrow> Client \<Rightarrow> string \<Rightarrow> string \<Rightarrow> depFileInfo \<Rightarrow> DependencyFile option" where
  "manifestFile rt client owner repo df =
     (case GetFileContent client owner repo (path df) of
        Inl err \<Rightarrow> None
      | Inr content \<Rightarrow>
          (case DecodeString rt content of
             Inl err \<Rightarrow> None
           | Inr decoded \<Rightarrow>
               (case AnalyzeDependencies_switch rt (fileType df) decoded of
                  (deps, ft) \<Rightarrow>
                    if deps = [] then None
                    else Some \<lparr>Filename = path df, FileType = ft, Dependencies = deps,
                               TotalCount = int (length deps)\<rparr>)))"

text \<open>The distinct elements of a list, each at its first occurrence.\<close>

definition firstSeen :: "'a list \<Rightarrow> 'a list" where
  "firstSeen xs = rev (remdups (rev xs))"

text \<open>The comparison \<^verbatim>\<open>parsePackageJSON\<close> passes to \<^verbatim>\<open>sort.Slice\<close>.\<close>

definition byName :: "Dependency \<Rightarrow> Dependency \<Rightarrow> bool" where
  "byName a b = (Name a < Name b)"

text \<open>
  What Go promises of the runtime: a \<^verbatim>\<open>range\<close> loop visits every entry of a map once, in
  some order; \<^verbatim>\<open>sort.Slice\<close> reorders the slice so that it is sorted by the comparison
  (here: by name). Nothing is promised about the order of elements with equal names.
\<close>

definition mapRange_ok :: "runtime \<Rightarrow> bool" where
  "mapRange_ok rt = (\<forall>m. mset (mapRange rt m) = mset m)"

definition sortSlice_ok :: "runtime \<Rightarrow> bool" where
  "sortSlice_ok rt =
     (\<forall>xs. mset (sortSlice rt xs (\<lambda>a b. Name a < Name b)) = mset xs
         \<and> sorted (map Name (sortSlice rt xs (\<lambda>a b. Name a < Name b))))"

text \<open>The quote characters \<^verbatim>\<open>'\<close> and \<^verbatim>\<open>"\<close>.\<close>

definition isQuote :: "char \<Rightarrow> bool" where
  "isQuote c = (c = CHR 0x27 \<or> c = CHR 0x22)"

text \<open>The optional part of \<open>gemPattern\<close>: \<^verbatim>\<open>\s*,\s*['"]([^'"]+)['"]\<close>.\<close>

definition gemSecondArg :: regex where
  "gemSecondArg = seqs [Star reSpace, Lit (CHR '',''), Star reSpace,
                      reQuote, Group 2 (Plus reNotQuote), reQuote]"

text \<open>
  The characters of \<^verbatim>\<open>\s\<close>, and the second quoted argument of a \<^verbatim>\<open>gem\<close> declaration,
  read from what follows the closing quote of the name: after optional white space a
  comma, optional white space, a quote, the argument (one character or more, none of
  them a quote) and a quote. \<open>None\<close> when the declaration has no such argument: nothing
  more on the line, something that is not a comma, a comma followed by something that
  is not quoted (\<^verbatim>\<open>, require: false\<close>), an empty argument (\<^verbatim>\<open>, ""\<close>), a quote never
  closed.
\<close>

definition reSpaceChar :: "char \<Rightarrow> bool" where
  "reSpaceChar c = (c \<in> set [CHR 0x09, CHR 0x0A, CHR 0x0C, CHR 0x0D, CHR 0x20])"

definition secondArg :: "string \<Rightarrow> string option" where
  "secondArg rest =
     (case dropWhile reSpaceChar rest of
        [] \<Rightarrow> None
      | c # r \<Rightarrow>
          if c \<noteq> CHR '','' then None
          else
            (case dropWhile reSpaceChar r of
               [] \<Rightarrow> None
             | q # r' \<Rightarrow>
                 if isQuote q \<and> takeWhile (\<lambda>c. \<not> isQuote c) r' \<noteq> []
                    \<and> dropWhile (\<lambda>c. \<not> isQuote c) r' \<noteq> []
                 then Some (takeWhile (\<lambda>c. \<not> isQuote c) r')
                 else None))"

text \<open>The entries one line of a Gemfile yields (none or one).\<close>

definition gemLine :: "string \<Rightarrow> Dependency list" where
  "gemLine l =
     (let line = TrimSpace l in
      if HasPrefix line ''#'' \<or> line = [] then []
      else
        (case FindStringSubmatch gemPattern 2 line of
           m0 # m1 # ms \<Rightarrow>
             [\<lparr>Name = m1,
               Version = (case ms of m2 # _ \<Rightarrow> if m2 \<noteq> [] then m2 else ''*'' | [] \<Rightarrow> ''*''),
               Type = ''production''\<rparr>]
         | _ \<Rightarrow> []))"

text \<open>The entry of the JSON document and the line of the Markdown text for a contributor.\<close>

definition contributorExport :: "Contributor \<Rightarrow> ContributorExport" where
  "contributorExport c = \<lparr>Login' = Login c, Commits' = Commits c\<rparr>"

definition contributorLine :: "nat \<times> Contributor \<Rightarrow> string" where
  "contributorLine kc =
     Sprintf_d (int (fst kc) + 1) @ ''. '' @ Login (snd kc) @ '' (''
       @ Sprintf_d (Commits (snd kc)) @ '' commits)\<newline>''"

definition contributorLines :: "Contributor list \<Rightarrow> string" where
  "contributorLines cs = concat (map contributorLine (List.enumerate 0 cs))"

subsection \<open>An example run\<close>

text \<open>
  Insertion sort as \<^verbatim>\<open>sort.Slice\<close> runs it on short slices: each element moves left past
  the elements it is less than. \<open>insertLeft\<close> works on the sorted part in reverse.
\<close>

fun insertLeft :: "('a \<Rightarrow> 'a \<Rightarrow> bool) \<Rightarrow> 'a \<Rightarrow> 'a list \<Rightarrow> 'a list" where
  "insertLeft lt x [] = [x]"
| "insertLeft lt x (y # ys) = (if lt x y then y # insertLeft lt x ys else x # y # ys)"

definition insertionSort :: "'a list \<Rightarrow> ('a \<Rightarrow> 'a \<Rightarrow> bool) \<Rightarrow> 'a list" where
  "insertionSort xs lt = rev (foldl (\<lambda>acc x. insertLeft lt x acc) [] xs)"

definition examplePackageJSON :: string where
  \<open>examplePackageJSON =
     ''{"dependencies":{"left-pad":" 1.3.0 ","react":"^18.2.0"},"devDependencies":{"jest":"~29.0"}}''\<close>

definition exampleGemfile :: string where
  \<open>exampleGemfile = ''gem "rails", "7.0"\<newline>gem "pry"\<newline>''\<close>

definition declaredGemfile :: string where
  \<open>declaredGemfile =
     ''source "https://rubygems.org"\<newline>\<newline># web\<newline>  gem   'pry', require: false\<newline>gem "rails", "7.0"\<newline>\<newline>gem "rack" , ""\<newline>''\<close>

definition exampleRuntime :: runtime where
  "exampleRuntime =
     \<lparr>Unmarshal = (\<lambda>content.
        if content = examplePackageJSON
        then Inr \<lparr>pkgDependencies = [(''left-pad'', '' 1.3.0 ''), (''react'', ''^18.2.0'')],
                  pkgDevDependencies = [(''jest'', ''~29.0'')],
                  pkgPeerDeps = []\<rparr>
        else Inl (Err ''invalid character'')),
      mapRange = rev,
      sortSlice = insertionSort,
      DecodeString = (\<lambda>s.
        if s = ''eyJkZXBlbmRlbmNpZXMiOnsibGVmdC1wYWQiOiIgMS4zLjAgIiwicmVhY3QiOiJeMTguMi4wIn0sImRldkRlcGVuZGVuY2llcyI6eyJqZXN0IjoifjI5LjAifX0=''
        then Inr examplePackageJSON
        else if s = ''Z2VtICJyYWlscyIsICI3LjAiCmdlbSAicHJ5Igo='' then Inr exampleGemfile
        else if s = ''IyBub3RoaW5nIHBpbm5lZCB5ZXQK'' then Inr ''# nothing pinned yet\<newline>''
        else Inl (Err ''illegal base64 data''))\<rparr>"

text \<open>The example of the specification: the maps \<^verbatim>\<open>{"a":"^1.0"}\<close> and \<^verbatim>\<open>{"b":"~2.0"}\<close>.\<close>

definition specRuntime :: runtime where
  \<open>specRuntime = exampleRuntime
     \<lparr>Unmarshal := (\<lambda>content.
        if content = ''{"dependencies":{"a":"^1.0"},"devDependencies":{"b":"~2.0"}}''
        then Inr \<lparr>pkgDependencies = [(''a'', ''^1.0'')],
                  pkgDevDependencies = [(''b'', ''~2.0'')],
                  pkgPeerDeps = []\<rparr>
        else Unmarshal exampleRuntime content)\<rparr>\<close>

definition exampleClient :: Client where
  "exampleClient =
     \<lparr>GetFileContent = (\<lambda>owner repo p.
        if p = ''web/package.json'' \<or> p = ''tools/package.json''
        then Inr ''eyJkZXBlbmRlbmNpZXMiOnsibGVmdC1wYWQiOiIgMS4zLjAgIiwicmVhY3QiOiJeMTguMi4wIn0sImRldkRlcGVuZGVuY2llcyI6eyJqZXN0IjoifjI5LjAifX0=''
        else if p = ''Gemfile'' then Inr ''Z2VtICJyYWlscyIsICI3LjAiCmdlbSAicHJ5Igo=''
        else if p = ''requirements.txt'' then Inr ''IyBub3RoaW5nIHBpbm5lZCB5ZXQK''
        else Inl (Err ''404 Not Found''))\<rparr>"

definition exampleTree :: "TreeEntry list" where
  "exampleTree =
     [\<lparr>Path = ''README.md'', EntryType = ''blob''\<rparr>,
      \<lparr>Path = ''web/package.json'', EntryType = ''blob''\<rparr>,
      \<lparr>Path = ''requirements.txt'', EntryType = ''blob''\<rparr>,
      \<lparr>Path = ''Gemfile'', EntryType = ''blob''\<rparr>,
      \<lparr>Path = ''tools/package.json'', EntryType = ''blob''\<rparr>,
      \<lparr>Path = ''go.mod'', EntryType = ''blob''\<rparr>,
      \<lparr>Path = ''vendor/Cargo.toml'', EntryType = ''tree''\<rparr>,
      \<lparr>Path = ''web/yarn.lock'', EntryType = ''blob''\<rparr>]"

definition exampleNpmFile :: "string \<Rightarrow> DependencyFile" where
  "exampleNpmFile p =
     \<lparr>Filename = p, FileType = ''npm'',
      Dependencies =
        [\<lparr>Name = ''jest'', Version = ''~29.0'', Type = ''dev''\<rparr>,
         \<lparr>Name = ''left-pad'', Version = ''1.3.0'', Type = ''production''\<rparr>,
         \<lparr>Name = ''react'', Version = ''^18.2.0'', Type = ''production''\<rparr>],
      TotalCount = 3\<rparr>"

definition exampleAnalysis :: DependencyAnalysis where
  "exampleAnalysis =
     \<lparr>Files =
        [exampleNpmFile ''web/package.json'',
         \<lparr>Filename = ''Gemfile'', FileType = ''ruby'',
          Dependencies =
            [\<lparr>Name = ''rails'', Version = ''7.0'', Type = ''production''\<rparr>,
             \<lparr>Name = ''pry'', Version = ''*'', Type = ''production''\<rparr>],
          TotalCount = 2\<rparr>,
         exampleNpmFile ''tools/package.json''],
      TotalDeps = 8,
      Languages = [''npm'', ''ruby''],
      HasLockFile = True\<rparr>"

definition exampleSystem :: system where
  "exampleSystem =
     \<lparr>Now = 1700000000,
      Format = (\<lambda>t layout. if layout = ''2006-01-02'' then ''2023-11-14'' else ''2023-11-14 22:13''),
      Create = (\<lambda>filename. if filename = [] then Some (Err ''open : no such file or directory'') else None),
      WriteError = (\<lambda>filename. None),
      rangeLanguages = rev,
      FormatPercent = (\<lambda>bytes total'. ''50.0'')\<rparr>"

definition exampleContributors :: "Contributor list" where
  "exampleContributors =
     [\<lparr>Login = ''ann'', Commits = 120\<rparr>, \<lparr>Login = ''bob'', Commits = 90\<rparr>,
      \<lparr>Login = ''cy'', Commits = 77\<rparr>, \<lparr>Login = ''dee'', Commits = 60\<rparr>,
      \<lparr>Login = ''eli'', Commits = 41\<rparr>, \<lparr>Login = ''fay'', Commits = 30\<rparr>,
      \<lparr>Login = ''gus'', Commits = 22\<rparr>, \<lparr>Login = ''hal'', Commits = 15\<rparr>,
      \<lparr>Login = ''ivy'', Commits = 9\<rparr>, \<lparr>Login = ''jo'', Commits = 4\<rparr>,
      \<lparr>Login = ''kim'', Commits = 2\<rparr>, \<lparr>Login = ''lee'', Commits = 1\<rparr>]"

definition exampleResult :: "unit AnalysisResult" where
  "exampleResult =
     \<lparr>Repo = Some \<lparr>FullName = ''octo/repo'', Description = ''An example'', Stars = 12, Forks = 3,
                   OpenIssues = 4, CreatedAt = 1600000000, PushedAt = 1690000000,
                   DefaultBranch = ''main'', HTMLURL = ''https://example.org/octo/repo''\<rparr>,
      CommitLog = [(), (), ()],
      Contributors = exampleContributors,
      FileTree = exampleTree,
      LanguageBytes = [(''Go'', 500), (''Shell'', 500)],
      HealthScore = 80, BusFactor = 2, BusRisk = ''medium'',
      MaturityScore = 7, MaturityLevel = ''growing''\<rparr>"

subsection \<open>Two runs on one manifest\<close>

text \<open>
  A quicksort around the middle element. Like \<^verbatim>\<open>sort.Slice\<close> (a quicksort on slices of more
  than twelve elements) it sorts by the comparison it is given and is not stable: an
  element equal to the pivot ends behind it, wherever it was before.
\<close>

lemma quickSort_smaller:
  "\<not> length xs \<le> 1 \<Longrightarrow>
     length (filter P (take (length xs div 2) xs @ drop (Suc (length xs div 2)) xs)) < length xs"
proof -
  assume a: "\<not> length xs \<le> 1"
  have "length (filter P (take (length xs div 2) xs @ drop (Suc (length xs div 2)) xs))
      \<le> length (take (length xs div 2) xs @ drop (Suc (length xs div 2)) xs)"
    by (rule length_filter_le)
  also have "\<dots> < length xs" using a by simp
  finally show ?thesis .
qed

function quickSort :: "'a list \<Rightarrow> ('a \<Rightarrow> 'a \<Rightarrow> bool) \<Rightarrow> 'a list" where
  "quickSort xs lt =
     (if length xs \<le> 1 then xs
      else
        (let k = length xs div 2;
             p = xs ! k;
             rest = take k xs @ drop (Suc k) xs
         in quickSort (filter (\<lambda>x. lt x p) rest) lt
              @ p # quickSort (filter (\<lambda>x. \<not> lt x p) rest) lt))"
  by pat_completeness auto
termination
proof (relation "measure (\<lambda>(xs, lt). length xs)")
  show "wf (measure (\<lambda>(xs, lt). length xs))" by simp
next
  fix xs :: "'a list" and lt :: "'a \<Rightarrow> 'a \<Rightarrow> bool" and k p rest
  assume "\<not> length xs \<le> 1" "k = length xs div 2" "p = xs ! k" "rest = take k xs @ drop (Suc k) xs"
  then show "((filter (\<lambda>x. lt x p) rest, lt), xs, lt) \<in> measure (\<lambda>(xs, lt). length xs)"
    using quickSort_smaller[of xs "\<lambda>x. lt x p"] by (simp del: filter_append)
next
  fix xs :: "'a list" and lt :: "'a \<Rightarrow> 'a \<Rightarrow> bool" and k p rest
  assume "\<not> length xs \<le> 1" "k = length xs div 2" "p = xs ! k" "rest = take k xs @ drop (Suc k) xs"
  then show "((filter (\<lambda>x. \<not> lt x p) rest, lt), xs, lt) \<in> measure (\<lambda>(xs, lt). length xs)"
    using quickSort_smaller[of xs "\<lambda>x. \<not> lt x p"] by (simp del: filter_append)
qed

declare quickSort.simps [simp del]

text \<open>
  A \<^verbatim>\<open>package.json\<close> that declares \<^verbatim>\<open>react\<close> twice, in \<^verbatim>\<open>dependencies\<close> (with eleven other
  names) and in \<^verbatim>\<open>devDependencies\<close>, and two runs on it. The runs decode the same content
  to the same maps and sort with the same function; only the order in which \<^verbatim>\<open>range\<close>
  visits a map differs, as it does from one run of a Go program to the next: the first
  run visits the entries as the document lists them, the second one visits the first
  four and then the other eight, each group from its second entry on and round.
\<close>

definition duplicatePackageJSON :: string where
  \<open>duplicatePackageJSON =
     ''{"dependencies":{"react":"^18.2.0","uuid":"^9.0.0","moment":"^2.29.4","yargs":"^17.7.2","lodash":"^4.17.21","redux":"^4.2.1","axios":"^1.4.0","semver":"^7.5.4","express":"^4.18.2","webpack":"^5.88.0","debug":"^4.3.4","chalk":"^5.3.0"},"devDependencies":{"react":"^17.0.2"}}''\<close>

definition firstRun :: runtime where
  "firstRun =
     \<lparr>Unmarshal = (\<lambda>content.
        if content = duplicatePackageJSON
        then Inr \<lparr>pkgDependencies =
                    [(''react'', ''^18.2.0''), (''uuid'', ''^9.0.0''), (''moment'', ''^2.29.4''),
                     (''yargs'', ''^17.7.2''), (''lodash'', ''^4.17.21''), (''redux'', ''^4.2.1''),
                     (''axios'', ''^1.4.0''), (''semver'', ''^7.5.4''), (''express'', ''^4.18.2''),
                     (''webpack'', ''^5.88.0''), (''debug'', ''^4.3.4''), (''chalk'', ''^5.3.0'')],
                  pkgDevDependencies = [(''react'', ''^17.0.2'')],
                  pkgPeerDeps = []\<rparr>
        else Inl (Err ''invalid character'')),
      mapRange = (\<lambda>m. m),
      sortSlice = quickSort,
      DecodeString = (\<lambda>s.
        if s = ''eyJkZXBlbmRlbmNpZXMiOnsicmVhY3QiOiJeMTguMi4wIiwidXVpZCI6Il45LjAuMCIsIm1vbWVudCI6Il4yLjI5LjQiLCJ5YXJncyI6Il4xNy43LjIiLCJsb2Rhc2giOiJeNC4xNy4yMSIsInJlZHV4IjoiXjQuMi4xIiwiYXhpb3MiOiJeMS40LjAiLCJzZW12ZXIiOiJeNy41LjQiLCJleHByZXNzIjoiXjQuMTguMiIsIndlYnBhY2siOiJeNS44OC4wIiwiZGVidWciOiJeNC4zLjQiLCJjaGFsayI6Il41LjMuMCJ9LCJkZXZEZXBlbmRlbmNpZXMiOnsicmVhY3QiOiJeMTcuMC4yIn19''
        then Inr duplicatePackageJSON
        else Inl (Err ''illegal base64 data''))\<rparr>"

definition secondRun :: runtime where
  "secondRun = firstRun\<lparr>mapRange := (\<lambda>m. rotate1 (take 4 m) @ rotate1 (drop 4 m))\<rparr>"

definition duplicateClient :: Client where
  "duplicateClient =
     \<lparr>GetFileContent = (\<lambda>owner repo p.
        if p = ''package.json''
        then Inr ''eyJkZXBlbmRlbmNpZXMiOnsicmVhY3QiOiJeMTguMi4wIiwidXVpZCI6Il45LjAuMCIsIm1vbWVudCI6Il4yLjI5LjQiLCJ5YXJncyI6Il4xNy43LjIiLCJsb2Rhc2giOiJeNC4xNy4yMSIsInJlZHV4IjoiXjQuMi4xIiwiYXhpb3MiOiJeMS40LjAiLCJzZW12ZXIiOiJeNy41LjQiLCJleHByZXNzIjoiXjQuMTguMiIsIndlYnBhY2siOiJeNS44OC4wIiwiZGVidWciOiJeNC4zLjQiLCJjaGFsayI6Il41LjMuMCJ9LCJkZXZEZXBlbmRlbmNpZXMiOnsicmVhY3QiOiJeMTcuMC4yIn19''
        else Inl (Err ''404 Not Found''))\<rparr>"

definition duplicateTree :: "TreeEntry list" where
  "duplicateTree = [\<lparr>Path = ''package.json'', EntryType = ''blob''\<rparr>]"

definition duplicateEntries :: "string \<Rightarrow> string \<Rightarrow> Dependency list" where
  "duplicateEntries t1 t2 =
     [\<lparr>Name = ''axios'', Version = ''^1.4.0'', Type = ''production''\<rparr>,
      \<lparr>Name = ''chalk'', Version = ''^5.3.0'', Type = ''production''\<rparr>,
      \<lparr>Name = ''debug'', Version = ''^4.3.4'', Type = ''production''\<rparr>,
      \<lparr>Name = ''express'', Version = ''^4.18.2'', Type = ''production''\<rparr>,
      \<lparr>Name = ''lodash'', Version = ''^4.17.21'', Type = ''production''\<rparr>,
      \<lparr>Name = ''moment'', Version = ''^2.29.4'', Type = ''production''\<rparr>,
      \<lparr>Name = ''react'', Version = (if t1 = ''dev'' then ''^17.0.2'' else ''^18.2.0''), Type = t1\<rparr>,
      \<lparr>Name = ''react'', Version = (if t2 = ''dev'' then ''^17.0.2'' else ''^18.2.0''), Type = t2\<rparr>,
      \<lparr>Name = ''redux'', Version = ''^4.2.1'', Type = ''production''\<rparr>,
      \<lparr>Name = ''semver'', Version = ''^7.5.4'', Type = ''production''\<rparr>,
      \<lparr>Name = ''uuid'', Version = ''^9.0.0'', Type = ''production''\<rparr>,
      \<lparr>Name = ''webpack'', Version = ''^5.88.0'', Type = ''production''\<rparr>,
      \<lparr>Name = ''yargs'', Version = ''^17.7.2'', Type = ''production''\<rparr>]"

definition duplicateAnalysis :: "string \<Rightarrow> string \<Rightarrow> DependencyAnalysis" where
  "duplicateAnalysis t1 t2 =
     \<lparr>Files = [\<lparr>Filename = ''package.json'', FileType = ''npm'',
                Dependencies = duplicateEntries t1 t2, TotalCount = 13\<rparr>],
      TotalDeps = 13, Languages = [''npm''], HasLockFile = False\<rparr>"

section \<open>Properties of the detector\<close>

lemma Split_not_Nil: "Split s sep \<noteq> []"
  by (induction s) (simp_all add: Let_def)

lemma Split_no_sep: "sep \<notin> set s \<Longrightarrow> Split s sep = [s]"
  by (induction s) (auto simp add: Let_def)

lemma Split_tl_Nil: "(tl (Split s sep) = []) = (sep \<notin> set s)"
  by (induction s) (auto simp add: Let_def Split_not_Nil)

lemma last_Split: "last (Split s sep) = rev (takeWhile (\<lambda>c. c \<noteq> sep) (rev s))"
proof (induction s)
  case Nil
  then show ?case by simp
next
  case (Cons c cs)
  show ?case
  proof (cases "sep \<in> set cs")
    case True
    then have tw: "takeWhile (\<lambda>c. c \<noteq> sep) (rev cs @ [c]) = takeWhile (\<lambda>c. c \<noteq> sep) (rev cs)"
      by (intro takeWhile_append1[of sep]) simp_all
    from True have "tl (Split cs sep) \<noteq> []" by (simp add: Split_tl_Nil)
    then show ?thesis using Cons tw Split_not_Nil[of cs sep]
      by (cases "Split cs sep") (auto simp: Let_def)
  next
    case False
    then have sp: "Split cs sep = [cs]" by (rule Split_no_sep)
    from False have tw: "takeWhile (\<lambda>c. c \<noteq> sep) (rev cs @ [c]) = rev cs @ takeWhile (\<lambda>c. c \<noteq> sep) [c]"
      by (intro takeWhile_append2) auto
    from False have tw2: "takeWhile (\<lambda>c. c \<noteq> sep) (rev cs) = rev cs"
      by (intro takeWhile_eq_all_conv[THEN iffD2]) auto
    show ?thesis using sp tw tw2 by (auto simp: Let_def)
  qed
qed

lemma hasLockFile_names_iff: "hasLockFile_names f ls = (f \<in> set ls)"
  by (induction ls) auto

text \<open>
  C4. \<^verbatim>\<open>hasLockFile\<close> holds of a tree exactly when the final path segment of some entry
  is, byte for byte, one of the eight lock-file names; it fails on the empty tree.
\<close>

theorem hasLockFile_iff:
  "hasLockFile tree =
     (\<exists>e \<in> set tree. baseName (Path e) \<in>
        {''package-lock.json'', ''yarn.lock'', ''pnpm-lock.yaml'', ''go.sum'',
         ''Pipfile.lock'', ''poetry.lock'', ''Cargo.lock'', ''Gemfile.lock''})
   \<and> hasLockFile [] = False"
proof -
  have "hasLockFile tree = (\<exists>e \<in> set tree. baseName (Path e) \<in> set lockFiles)"
    by (induction tree) (simp_all add: Let_def hasLockFile_names_iff last_Split baseName_def)
  then show ?thesis by (simp add: lockFiles_def)
qed

theorem hasLockFile_iff_witness:
  "hasLockFile [\<lparr>Path = ''README.md'', EntryType = ''blob''\<rparr>,
                \<lparr>Path = ''web/yarn.lock'', EntryType = ''blob''\<rparr>]
   \<and> \<not> hasLockFile [\<lparr>Path = ''web/Yarn.lock'', EntryType = ''blob''\<rparr>,
                    \<lparr>Path = ''yarn.lock/x'', EntryType = ''blob''\<rparr>]"
  using hasLockFile_iff[of "[\<lparr>Path = ''README.md'', EntryType = ''blob''\<rparr>,
                \<lparr>Path = ''web/yarn.lock'', EntryType = ''blob''\<rparr>]"]
    hasLockFile_iff[of "[\<lparr>Path = ''web/Yarn.lock'', EntryType = ''blob''\<rparr>,
                    \<lparr>Path = ''yarn.lock/x'', EntryType = ''blob''\<rparr>]"]
  by (simp add: baseName_def)


section \<open>Properties of the aggregator\<close>

lemma example_run:
  "AnalyzeDependencies exampleRuntime exampleClient ''octo'' ''repo'' ''main'' exampleTree
     = (exampleAnalysis, None)"
  by code_simp

lemma contains_iff: "contains xs x = (x \<in> set xs)"
  by (induction xs) auto

lemma firstSeen_snoc:
  "firstSeen (xs @ [x]) = (if x \<in> set (firstSeen xs) then firstSeen xs else firstSeen xs @ [x])"
  by (simp add: firstSeen_def)

lemma loop_step:
  "AnalyzeDependencies_loop rt client owner repo (df # dfs) a =
     AnalyzeDependencies_loop rt client owner repo dfs
       (case manifestFile rt client owner repo df of
          None \<Rightarrow> a
        | Some f \<Rightarrow>
            a\<lparr>Files := Files a @ [f],
              TotalDeps := TotalDeps a + int (length (Dependencies f)),
              Languages := (if \<not> contains (Languages a) (FileType f)
                            then Languages a @ [FileType f] else Languages a)\<rparr>)"
  by (simp add: manifestFile_def split: sum.splits prod.splits)

lemma loop_Files:
  "Files (AnalyzeDependencies_loop rt client owner repo dfs a) =
     Files a @ List.map_filter (manifestFile rt client owner repo) dfs"
proof (induction dfs arbitrary: a)
  case Nil
  then show ?case by (simp add: List.map_filter_simps)
next
  case (Cons df dfs)
  show ?case
    unfolding loop_step Cons.IH
    by (simp add: List.map_filter_simps split: option.splits)
qed

lemma loop_TotalDeps:
  "TotalDeps (AnalyzeDependencies_loop rt client owner repo dfs a) =
     TotalDeps a +
     (\<Sum>f\<leftarrow>List.map_filter (manifestFile rt client owner repo) dfs. int (length (Dependencies f)))"
proof (induction dfs arbitrary: a)
  case Nil
  then show ?case by (simp add: List.map_filter_simps)
next
  case (Cons df dfs)
  show ?case
    unfolding loop_step Cons.IH
    by (simp add: List.map_filter_simps split: option.splits)
qed

lemma loop_Languages:
  "Languages a = firstSeen (map FileType (Files a)) \<Longrightarrow>
   Languages (AnalyzeDependencies_loop rt client owner repo dfs a) =
     firstSeen (map FileType (Files (AnalyzeDependencies_loop rt client owner repo dfs a)))"
proof (induction dfs arbitrary: a)
  case Nil
  then show ?case by simp
next
  case (Cons df dfs)
  show ?case
    unfolding loop_step
    by (rule Cons.IH) (use Cons.prems in \<open>simp add: firstSeen_snoc contains_iff split: option.splits\<close>)
qed

lemma manifestFile_Some:
  "manifestFile rt client owner repo df = Some f \<Longrightarrow>
     Dependencies f \<noteq> [] \<and> TotalCount f = int (length (Dependencies f))"
  by (auto simp: manifestFile_def split: sum.splits prod.splits if_splits)

lemma AnalyzeDependencies_Files:
  "Files (fst (AnalyzeDependencies rt client owner repo branch tree)) =
     List.map_filter (manifestFile rt client owner repo) (findDependencyFiles tree)"
  by (simp add: AnalyzeDependencies_def Let_def loop_Files)

lemma in_map_filterD: "y \<in> set (List.map_filter f xs) \<Longrightarrow> \<exists>x \<in> set xs. f x = Some y"
  by (auto simp: List.map_filter_def)

text \<open>
  C2. The files of the report are the records of the detected manifests, in the order
  of the tree, that were fetched, decoded and parsed to at least one dependency: no
  file of the report has an empty dependency list, and \<open>TotalDeps\<close> is the sum of the
  lengths of the dependency lists of the files of the report.
\<close>

theorem AnalyzeDependencies_drops_empty:
  fixes rt client owner repo branch tree
  defines "r \<equiv> fst (AnalyzeDependencies rt client owner repo branch tree)"
  shows "Files r = List.map_filter (manifestFile rt client owner repo) (findDependencyFiles tree)
     \<and> (\<forall>f \<in> set (Files r). Dependencies f \<noteq> [])
     \<and> TotalDeps r = (\<Sum>f\<leftarrow>Files r. int (length (Dependencies f)))"
proof (intro conjI)
  show files: "Files r = List.map_filter (manifestFile rt client owner repo) (findDependencyFiles tree)"
    unfolding r_def by (rule AnalyzeDependencies_Files)
  show "\<forall>f \<in> set (Files r). Dependencies f \<noteq> []"
    unfolding files by (auto dest!: in_map_filterD manifestFile_Some)
  show "TotalDeps r = (\<Sum>f\<leftarrow>Files r. int (length (Dependencies f)))"
    unfolding files unfolding r_def
    by (simp add: AnalyzeDependencies_def Let_def loop_TotalDeps)
qed

theorem AnalyzeDependencies_drops_empty_witness:
  "map Filename (Files exampleAnalysis) = [''web/package.json'', ''Gemfile'', ''tools/package.json'']
   \<and> list_all (\<lambda>f. Dependencies f \<noteq> []) (Files exampleAnalysis)
   \<and> TotalDeps exampleAnalysis = 3 + 2 + 3
   \<and> manifestFile exampleRuntime exampleClient ''octo'' ''repo''
        \<lparr>path = ''requirements.txt'', fileType = ''python''\<rparr> = None"
proof -
  have "manifestFile exampleRuntime exampleClient ''octo'' ''repo''
        \<lparr>path = ''requirements.txt'', fileType = ''python''\<rparr> = None"
    by code_simp
  moreover have "map Filename (Files exampleAnalysis) = [''web/package.json'', ''Gemfile'', ''tools/package.json'']"
    by (simp add: exampleAnalysis_def exampleNpmFile_def)
  moreover have "(\<Sum>f\<leftarrow>Files exampleAnalysis. int (length (Dependencies f))) = 3 + 2 + 3"
    by (simp add: exampleAnalysis_def exampleNpmFile_def)
  ultimately show ?thesis
    using AnalyzeDependencies_drops_empty
      [of exampleRuntime exampleClient "''octo''" "''repo''" "''main''" exampleTree]
    by (simp add: example_run list_all_iff)
qed

text \<open>
  C5. In every file of the report, \<open>TotalCount\<close> is the length of \<open>Dependencies\<close>.
\<close>

theorem TotalCount_is_length:
  "\<forall>f \<in> set (Files (fst (AnalyzeDependencies rt client owner repo branch tree))).
     TotalCount f = int (length (Dependencies f))"
  unfolding AnalyzeDependencies_Files by (auto dest!: in_map_filterD manifestFile_Some)

theorem TotalCount_is_length_witness:
  "list_all (\<lambda>f. TotalCount f = int (length (Dependencies f))) (Files exampleAnalysis)
   \<and> map TotalCount (Files exampleAnalysis) = [3, 2, 3]"
  using TotalCount_is_length
    [of exampleRuntime exampleClient "''octo''" "''repo''" "''main''" exampleTree]
  by (simp add: example_run list_all_iff) (simp add: exampleAnalysis_def exampleNpmFile_def)

text \<open>
  C6. The languages of the report are the ecosystem tags of its files, each once, in
  the order of their first file.
\<close>

theorem Languages_first_seen:
  fixes rt client owner repo branch tree
  defines "r \<equiv> fst (AnalyzeDependencies rt client owner repo branch tree)"
  shows "distinct (Languages r) \<and> Languages r = firstSeen (map FileType (Files r))"
proof -
  have "Languages r = firstSeen (map FileType (Files r))"
    unfolding r_def by (simp add: AnalyzeDependencies_def Let_def loop_Languages firstSeen_def)
  moreover have "distinct (firstSeen (map FileType (Files r)))"
    by (simp add: firstSeen_def)
  ultimately show ?thesis by simp
qed

theorem Languages_first_seen_witness:
  "map FileType (Files exampleAnalysis) = [''npm'', ''ruby'', ''npm'']
   \<and> Languages exampleAnalysis = [''npm'', ''ruby'']
   \<and> distinct (Languages exampleAnalysis)
   \<and> Languages exampleAnalysis = firstSeen (map FileType (Files exampleAnalysis))"
  using Languages_first_seen
    [of exampleRuntime exampleClient "''octo''" "''repo''" "''main''" exampleTree]
  by (simp add: example_run) (simp add: exampleAnalysis_def exampleNpmFile_def firstSeen_def)


section \<open>Two runs of the aggregator\<close>

lemma quickSort_short: "length xs \<le> 1 \<Longrightarrow> quickSort xs lt = xs"
  by (subst quickSort.simps) simp

lemma quickSort_long:
  "\<not> length xs \<le> 1 \<Longrightarrow> quickSort xs lt =
     quickSort (filter (\<lambda>x. lt x (xs ! (length xs div 2)))
        (take (length xs div 2) xs @ drop (Suc (length xs div 2)) xs)) lt
     @ xs ! (length xs div 2)
     # quickSort (filter (\<lambda>x. \<not> lt x (xs ! (length xs div 2)))
         (take (length xs div 2) xs @ drop (Suc (length xs div 2)) xs)) lt"
  by (subst quickSort.simps) (simp only: Let_def if_False)

lemma mset_without_middle:
  assumes "k < length xs"
  shows "add_mset (xs ! k) (mset (take k xs @ drop (Suc k) xs)) = mset xs"
proof -
  have "xs = take k xs @ xs ! k # drop (Suc k) xs"
    using assms by (simp add: id_take_nth_drop)
  then have "mset xs = mset (take k xs @ xs ! k # drop (Suc k) xs)" by simp
  then show ?thesis by simp
qed

lemma mset_quickSort: "mset (quickSort xs lt) = mset xs"
proof (induction "length xs" arbitrary: xs rule: less_induct)
  case less
  show ?case
  proof (cases "length xs \<le> 1")
    case True
    then show ?thesis by (simp add: quickSort_short)
  next
    case False
    define k where "k = length xs div 2"
    define rest where "rest = take k xs @ drop (Suc k) xs"
    have k: "k < length xs" using False by (simp add: k_def)
    have len: "length rest < length xs" using k by (simp add: rest_def)
    have l: "length (filter P rest) < length xs" for P
      by (rule le_less_trans[OF length_filter_le len])
    have "mset (quickSort xs lt) =
        mset (filter (\<lambda>x. lt x (xs ! k)) rest) + add_mset (xs ! k)
          (mset (filter (\<lambda>x. \<not> lt x (xs ! k)) rest))"
      unfolding quickSort_long[OF False] k_def[symmetric] rest_def[symmetric]
      using less[OF l] by simp
    also have "\<dots> = add_mset (xs ! k) (mset rest)"
      by simp
    also have "\<dots> = mset xs"
      unfolding rest_def by (rule mset_without_middle[OF k])
    finally show ?thesis .
  qed
qed

lemma set_quickSort: "set (quickSort xs lt) = set xs"
  by (metis mset_quickSort set_mset_mset)

lemma sorted_quickSort:
  fixes f :: "'a \<Rightarrow> 'b::linorder"
  shows "sorted (map f (quickSort xs (\<lambda>a b. f a < f b)))"
proof (induction "length xs" arbitrary: xs rule: less_induct)
  case less
  show ?case
  proof (cases "length xs \<le> 1")
    case True
    then have "length (map f xs) \<le> 1" by simp
    then have "sorted (map f xs)"
      by (metis sorted01 One_nat_def)
    then show ?thesis using True by (simp add: quickSort_short)
  next
    case False
    define k where "k = length xs div 2"
    define rest where "rest = take k xs @ drop (Suc k) xs"
    define p where "p = xs ! k"
    have k: "k < length xs" using False by (simp add: k_def)
    have len: "length rest < length xs" using k by (simp add: rest_def)
    have l: "length (filter P rest) < length xs" for P
      by (rule le_less_trans[OF length_filter_le len])
    let ?l = "quickSort (filter (\<lambda>x. f x < f p) rest) (\<lambda>a b. f a < f b)"
    let ?r = "quickSort (filter (\<lambda>x. \<not> f x < f p) rest) (\<lambda>a b. f a < f b)"
    have q: "quickSort xs (\<lambda>a b. f a < f b) = ?l @ p # ?r"
      unfolding quickSort_long[OF False] k_def[symmetric] rest_def[symmetric] p_def[symmetric]
      by (rule refl)
    have sl: "\<forall>x \<in> set ?l. f x \<le> f p"
    proof
      fix x assume "x \<in> set ?l"
      then have "x \<in> set (filter (\<lambda>x. f x < f p) rest)" by (simp only: set_quickSort)
      then show "f x \<le> f p" by auto
    qed
    have sr: "\<forall>x \<in> set ?r. f p \<le> f x"
    proof
      fix x assume "x \<in> set ?r"
      then have "x \<in> set (filter (\<lambda>x. \<not> f x < f p) rest)" by (simp only: set_quickSort)
      then show "f p \<le> f x" by auto
    qed
    have "sorted (map f ?l)" by (rule less[OF l])
    moreover have "sorted (map f ?r)" by (rule less[OF l])
    moreover have "\<forall>x \<in> set ?l. \<forall>y \<in> set ?r. f x \<le> f y"
      using sl sr by (meson order_trans)
    ultimately have "sorted (map f (?l @ p # ?r))"
      using sl sr by (simp add: sorted_append)
    then show ?thesis by (simp only: q)
  qed
qed

lemma firstRun_ok: "mapRange_ok firstRun \<and> sortSlice_ok firstRun"
  by (simp add: firstRun_def mapRange_ok_def sortSlice_ok_def mset_quickSort sorted_quickSort)

lemma mset_rotate1: "mset (rotate1 xs) = mset xs"
  by (cases xs) simp_all

lemma mset_rotate1_halves: "mset (rotate1 (take n m) @ rotate1 (drop n m)) = mset m"
proof -
  have "mset (rotate1 (take n m) @ rotate1 (drop n m)) = mset (take n m @ drop n m)"
    by (simp add: mset_rotate1 del: append_take_drop_id)
  then show ?thesis by simp
qed

lemma secondRun_ok: "mapRange_ok secondRun \<and> sortSlice_ok secondRun"
  by (simp add: secondRun_def firstRun_def mapRange_ok_def sortSlice_ok_def mset_quickSort
      sorted_quickSort mset_rotate1_halves del: mset_append)

lemma first_run:
  "AnalyzeDependencies firstRun duplicateClient ''octo'' ''repo'' ''main'' duplicateTree
     = (duplicateAnalysis ''dev'' ''production'', None)"
  by code_simp

lemma second_run:
  "AnalyzeDependencies secondRun duplicateClient ''octo'' ''repo'' ''main'' duplicateTree
     = (duplicateAnalysis ''production'' ''dev'', None)"
  by code_simp

text \<open>
  C8. Two runs of \<^verbatim>\<open>AnalyzeDependencies\<close> on the same tree and the same content can
  return different values when a manifest declares a name in two sections. Both runs
  below keep what Go promises of \<^verbatim>\<open>range\<close> and of \<^verbatim>\<open>sort.Slice\<close>, decode alike and sort
  with the same function. \<^verbatim>\<open>sort.Slice\<close> compares names only and is not stable, so the
  place of the two entries named \<^verbatim>\<open>react\<close> follows the order the map was visited in: the
  first run lists the \<^verbatim>\<open>dev\<close> entry before the \<^verbatim>\<open>production\<close> entry, the second run the
  \<^verbatim>\<open>production\<close> entry before the \<^verbatim>\<open>dev\<close> entry.
\<close>

theorem AnalyzeDependencies_twice_differ:
  "mapRange_ok firstRun \<and> sortSlice_ok firstRun \<and> mapRange_ok secondRun \<and> sortSlice_ok secondRun
   \<and> Unmarshal secondRun = Unmarshal firstRun \<and> DecodeString secondRun = DecodeString firstRun
   \<and> sortSlice secondRun = sortSlice firstRun
   \<and> AnalyzeDependencies firstRun duplicateClient ''octo'' ''repo'' ''main'' duplicateTree
        = (duplicateAnalysis ''dev'' ''production'', None)
   \<and> AnalyzeDependencies secondRun duplicateClient ''octo'' ''repo'' ''main'' duplicateTree
        = (duplicateAnalysis ''production'' ''dev'', None)
   \<and> AnalyzeDependencies firstRun duplicateClient ''octo'' ''repo'' ''main'' duplicateTree
        \<noteq> AnalyzeDependencies secondRun duplicateClient ''octo'' ''repo'' ''main'' duplicateTree"
proof -
  have d: "duplicateAnalysis ''dev'' ''production'' \<noteq> duplicateAnalysis ''production'' ''dev''"
    by (simp add: duplicateAnalysis_def duplicateEntries_def)
  have r: "Unmarshal secondRun = Unmarshal firstRun" "DecodeString secondRun = DecodeString firstRun"
    "sortSlice secondRun = sortSlice firstRun"
    by (simp_all add: secondRun_def)
  show ?thesis
    using firstRun_ok secondRun_ok d r by (simp only: first_run second_run) simp
qed

section \<open>Properties of the parsers\<close>

lemma parseGemfile_loop_eq:
  "parseGemfile_loop lines deps = deps @ concat (map gemLine lines)"
  by (induction lines arbitrary: deps) (simp_all add: gemLine_def Let_def split: list.splits)

lemma gemLine_production: "d \<in> set (gemLine l) \<Longrightarrow> Type d = ''production''"
  by (auto simp: gemLine_def Let_def split: list.splits if_splits)

lemma Star_then:
  assumes a1: "\<And>i c r g. rmatch a (i, c # r, g) = (if P c then [(Suc i, r, g)] else [])"
    and a2: "\<And>i g. rmatch a (i, [], g) = []"
    and n: "\<forall>c \<in> set n. P c"
    and t: "t = [] \<or> \<not> P (hd t)"
    and K: "\<And>j c r h. P c \<Longrightarrow> K (j, c # r, h) = []"
  shows "concat (map K (rmatch (Star a) (i, n @ t, g))) = K (i + length n, t, g)"
  using n
proof (induction n arbitrary: i)
  case Nil
  from t have "rmatch a (i, t, g) = []" by (cases t) (auto simp: a1 a2)
  then show ?case by simp
next
  case (Cons c n)
  then have c: "P c" and n: "\<forall>c \<in> set n. P c" by simp_all
  from c have "rmatch (Star a) (i, (c # n) @ t, g) =
      rmatch (Star a) (Suc i, n @ t, g) @ [(i, (c # n) @ t, g)]"
    by (simp add: a1)
  then show ?case using Cons.IH[OF n, of "Suc i"] K[OF c] by simp
qed

lemma reSpace_step:
  "rmatch reSpace (i, c # r, g) = (if reSpaceChar c then [(Suc i, r, g)] else [])"
  "rmatch reSpace (i, [], g) = []"
  by (simp_all add: reSpace_def reSpaceChar_def)

lemma reNotQuote_step:
  "rmatch reNotQuote (i, c # r, g) = (if \<not> isQuote c then [(Suc i, r, g)] else [])"
  "rmatch reNotQuote (i, [], g) = []"
  by (auto simp: reNotQuote_def isQuote_def)

lemma reQuote_step:
  "rmatch reQuote (i, c # r, g) = (if isQuote c then [(Suc i, r, g)] else [])"
  "rmatch reQuote (i, [], g) = []"
  by (auto simp: reQuote_def isQuote_def)

lemma not_space_quote: "isQuote c \<Longrightarrow> \<not> reSpaceChar c"
  by (auto simp: isQuote_def reSpaceChar_def)

text \<open>A group around \<^verbatim>\<open>[^'"]+\<close>, followed by a quote and then \<open>R\<close>.\<close>

lemma quoted_group:
  assumes n: "n \<noteq> []" "\<forall>c \<in> set n. \<not> isQuote c" and t: "t = [] \<or> isQuote (hd t)"
  shows "rmatch (Seq (Group k (Plus reNotQuote)) (Seq reQuote R)) (i, n @ t, g) =
     (case t of [] \<Rightarrow> [] | q # t' \<Rightarrow> rmatch R (Suc (i + length n), t', (k, n) # g))"
proof -
  obtain c n' where n': "n = c # n'" using n(1) by (cases n) auto
  define K where "K = (\<lambda>st. rmatch (Seq reQuote R)
              (fst st, fst (snd st), (k, take (fst st - i) (n @ t)) # snd (snd st)))"
  have s2: "rmatch (Seq (Group k (Plus reNotQuote)) (Seq reQuote R)) (i, n @ t, g)
      = concat (map K (rmatch (Star reNotQuote) (Suc i, n' @ t, g)))"
    using n unfolding n' Plus_def K_def
    by (simp add: comp_def reNotQuote_step del: rmatch.simps(6))
  have Kfail: "\<And>j c r h. \<not> isQuote c \<Longrightarrow> K (j, c # r, h) = []"
    by (simp add: K_def reQuote_step)
  have s3: "concat (map K (rmatch (Star reNotQuote) (Suc i, n' @ t, g)))
        = K (Suc i + length n', t, g)"
  proof (rule Star_then[where P = "\<lambda>c. \<not> isQuote c"])
    show "\<forall>c\<in>set n'. \<not> isQuote c" using n(2) by (simp add: n')
    show "t = [] \<or> \<not> \<not> isQuote (hd t)" using t by simp
  qed (simp_all add: reNotQuote_step Kfail)
  have s4: "K (Suc i + length n', t, g) =
      (case t of [] \<Rightarrow> [] | q # t' \<Rightarrow> rmatch R (Suc (i + length n), t', (k, n) # g))"
    using t unfolding K_def n' by (cases t) (simp_all add: reQuote_step)
  show ?thesis by (simp only: s2 s3 s4)
qed

lemma gemSecondArg_fails:
  assumes "secondArg rest = None"
  shows "rmatch gemSecondArg (i, rest, g) = []"
proof -
  define X4 where "X4 = Seq (Group 2 (Plus reNotQuote)) (Seq reQuote Eps)"
  define X3 where "X3 = Seq reQuote X4"
  define X2 where "X2 = Seq (Star reSpace) X3"
  define X1 where "X1 = Seq (Lit (CHR '','')) X2"
  have X: "gemSecondArg = Seq (Star reSpace) X1"
    by (simp add: gemSecondArg_def X1_def X2_def X3_def X4_def)
  define ws where "ws = takeWhile reSpaceChar rest"
  define t where "t = dropWhile reSpaceChar rest"
  have rest: "rest = ws @ t" by (simp add: ws_def t_def)
  have t: "t = [] \<or> \<not> reSpaceChar (hd t)"
    unfolding t_def by (metis hd_dropWhile)
  have "rmatch gemSecondArg (i, rest, g) = concat (map (rmatch X1) (rmatch (Star reSpace) (i, ws @ t, g)))"
    unfolding X rest by simp
  also have "\<dots> = rmatch X1 (i + length ws, t, g)"
  proof (rule Star_then[where P = reSpaceChar])
    show "\<forall>c\<in>set ws. reSpaceChar c" unfolding ws_def by (metis set_takeWhileD)
    show "\<And>j c r h. reSpaceChar c \<Longrightarrow> rmatch X1 (j, c # r, h) = []"
      by (auto simp: X1_def reSpaceChar_def)
  qed (simp_all add: reSpace_step t)
  also have "\<dots> = []"
  proof (cases t)
    case Nil
    then show ?thesis by (simp add: X1_def)
  next
    case (Cons c r)
    show ?thesis
    proof (cases "c = CHR '',''")
      case False
      then show ?thesis by (simp add: X1_def Cons)
    next
      case True
      define ws3 where "ws3 = takeWhile reSpaceChar r"
      define u where "u = dropWhile reSpaceChar r"
      have r: "r = ws3 @ u" by (simp add: ws3_def u_def)
      have u: "u = [] \<or> \<not> reSpaceChar (hd u)"
        unfolding u_def by (metis hd_dropWhile)
      have "rmatch X1 (i + length ws, t, g) = concat (map (rmatch X3) (rmatch (Star reSpace) (Suc (i + length ws), ws3 @ u, g)))"
        unfolding Cons True X1_def X2_def r by simp
      also have "\<dots> = rmatch X3 (Suc (i + length ws) + length ws3, u, g)"
      proof (rule Star_then[where P = reSpaceChar])
        show "\<forall>c\<in>set ws3. reSpaceChar c" unfolding ws3_def by (metis set_takeWhileD)
        show "\<And>j c r h. reSpaceChar c \<Longrightarrow> rmatch X3 (j, c # r, h) = []"
          using not_space_quote by (auto simp: X3_def reQuote_step)
      qed (simp_all add: reSpace_step u)
      also have "\<dots> = []"
      proof (cases u)
        case Nil
        then show ?thesis by (simp add: X3_def reQuote_step)
      next
        case (Cons q r')
        note u_Cons = this
        show ?thesis
        proof (cases "isQuote q")
          case False
          then show ?thesis by (simp add: X3_def reQuote_step u_Cons)
        next
          case q: True
          define v where "v = takeWhile (\<lambda>c. \<not> isQuote c) r'"
          define w where "w = dropWhile (\<lambda>c. \<not> isQuote c) r'"
          have r': "r' = v @ w" by (simp add: v_def w_def)
          have w: "w = [] \<or> isQuote (hd w)"
            unfolding w_def using hd_dropWhile[of "\<lambda>c. \<not> isQuote c" r'] by auto
          have v: "\<forall>c\<in>set v. \<not> isQuote c" unfolding v_def by (metis set_takeWhileD)
          from assms have vw: "v = [] \<or> w = []"
            unfolding secondArg_def
            using \<open>t = c # r\<close> True u_Cons q
            by (auto simp: t_def[symmetric] u_def[symmetric] v_def w_def split: list.splits if_splits)
          have "rmatch X3 (Suc (i + length ws) + length ws3, u, g)
              = rmatch X4 (Suc (Suc (i + length ws) + length ws3), v @ w, g)"
            unfolding X3_def u_Cons r' using q by (simp add: reQuote_step)
          also have "\<dots> = []"
          proof (cases "v = []")
            case True
            with w show ?thesis
              by (cases w) (simp_all add: X4_def Plus_def reNotQuote_step)
          next
            case False
            with vw have "w = []" by simp
            with quoted_group[OF False v, of w 2 Eps] show ?thesis
              unfolding X4_def by simp
          qed
          finally show ?thesis .
        qed
      qed
      finally show ?thesis .
    qed
  qed
  finally show ?thesis .
qed


lemma gemSecondArg_matches:
  assumes "secondArg rest = Some v"
  shows "v \<noteq> [] \<and> (\<exists>j t. rmatch gemSecondArg (i, rest, g) = [(j, t, (2, v) # g)])"
proof -
  define X4 where "X4 = Seq (Group 2 (Plus reNotQuote)) (Seq reQuote Eps)"
  define X3 where "X3 = Seq reQuote X4"
  define X2 where "X2 = Seq (Star reSpace) X3"
  define X1 where "X1 = Seq (Lit (CHR '','')) X2"
  have X: "gemSecondArg = Seq (Star reSpace) X1"
    by (simp add: gemSecondArg_def X1_def X2_def X3_def X4_def)
  define ws where "ws = takeWhile reSpaceChar rest"
  define t where "t = dropWhile reSpaceChar rest"
  have rest: "rest = ws @ t" by (simp add: ws_def t_def)
  from assms have t_ne: "t \<noteq> []"
    unfolding secondArg_def t_def[symmetric] by (auto split: list.splits)
  from assms t_ne have "hd t = CHR '',''"
    unfolding secondArg_def t_def[symmetric] by (cases t) (auto split: if_splits)
  with t_ne obtain r where t_Cons: "t = CHR '','' # r" by (cases t) auto
  define ws3 where "ws3 = takeWhile reSpaceChar r"
  define u where "u = dropWhile reSpaceChar r"
  have r: "r = ws3 @ u" by (simp add: ws3_def u_def)
  from assms have A: "(case u of [] \<Rightarrow> None
     | q # r' \<Rightarrow>
         if isQuote q \<and> takeWhile (\<lambda>c. \<not> isQuote c) r' \<noteq> []
            \<and> dropWhile (\<lambda>c. \<not> isQuote c) r' \<noteq> []
         then Some (takeWhile (\<lambda>c. \<not> isQuote c) r') else None) = Some v"
    unfolding secondArg_def t_def[symmetric] t_Cons by (simp add: u_def)
  then obtain q r' where u_Cons: "u = q # r'" by (cases u) auto
  from A have q: "isQuote q" unfolding u_Cons by (simp split: if_splits)
  from A have v: "v = takeWhile (\<lambda>c. \<not> isQuote c) r'" "v \<noteq> []"
    unfolding u_Cons by (auto split: if_splits)
  from A have w: "dropWhile (\<lambda>c. \<not> isQuote c) r' \<noteq> []"
    unfolding u_Cons by (simp split: if_splits)
  define w where "w = dropWhile (\<lambda>c. \<not> isQuote c) r'"
  have r': "r' = v @ w" by (simp add: v w_def)
  from w obtain q4 w' where w_Cons: "w = q4 # w'" unfolding w_def by (cases "dropWhile (\<lambda>c. \<not> isQuote c) r'") auto
  have q4: "isQuote (hd w)"
    unfolding w_def using w hd_dropWhile[of "\<lambda>c. \<not> isQuote c" r'] by auto
  have vq: "\<forall>c\<in>set v. \<not> isQuote c" unfolding v by (metis set_takeWhileD)
  have "rmatch gemSecondArg (i, rest, g) = concat (map (rmatch X1) (rmatch (Star reSpace) (i, ws @ t, g)))"
    unfolding X rest by simp
  also have "\<dots> = rmatch X1 (i + length ws, t, g)"
  proof (rule Star_then[where P = reSpaceChar])
    show "\<forall>c\<in>set ws. reSpaceChar c" unfolding ws_def by (metis set_takeWhileD)
    show "\<And>j c r h. reSpaceChar c \<Longrightarrow> rmatch X1 (j, c # r, h) = []"
      by (auto simp: X1_def reSpaceChar_def)
    show "t = [] \<or> \<not> reSpaceChar (hd t)" by (simp add: t_Cons reSpaceChar_def)
  qed (simp_all add: reSpace_step)
  also have "\<dots> = concat (map (rmatch X3) (rmatch (Star reSpace) (Suc (i + length ws), ws3 @ u, g)))"
    unfolding t_Cons X1_def X2_def r by simp
  also have "\<dots> = rmatch X3 (Suc (i + length ws) + length ws3, u, g)"
  proof (rule Star_then[where P = reSpaceChar])
    show "\<forall>c\<in>set ws3. reSpaceChar c" unfolding ws3_def by (metis set_takeWhileD)
    show "\<And>j c r h. reSpaceChar c \<Longrightarrow> rmatch X3 (j, c # r, h) = []"
      using not_space_quote by (auto simp: X3_def reQuote_step)
    show "u = [] \<or> \<not> reSpaceChar (hd u)" using q by (simp add: u_Cons not_space_quote)
  qed (simp_all add: reSpace_step)
  also have "\<dots> = rmatch X4 (Suc (Suc (i + length ws) + length ws3), v @ w, g)"
    unfolding X3_def u_Cons r' using q by (simp add: reQuote_step)
  also have "\<dots> = [(Suc (Suc (Suc (i + length ws) + length ws3) + length v), w', (2, v) # g)]"
  proof -
    have wq: "w = [] \<or> isQuote (hd w)" using q4 by simp
    have E: "rmatch X4 (Suc (Suc (i + length ws) + length ws3), v @ w, g) =
        (case w of [] \<Rightarrow> []
         | q # t' \<Rightarrow> rmatch Eps (Suc (Suc (Suc (i + length ws) + length ws3) + length v), t', (2, v) # g))"
      unfolding X4_def by (rule quoted_group[OF v(2) vq wq])
    show ?thesis using E by (simp add: w_Cons)
  qed
  finally show ?thesis using v(2) by blast
qed

lemma concat_map_Eps: "concat (map (rmatch Eps) xs) = xs"
  by (induction xs) simp_all

lemma gemPattern_decl:
  assumes sp: "sp \<noteq> []" "\<forall>c \<in> set sp. reSpaceChar c"
    and n: "n \<noteq> []" "\<forall>c \<in> set n. \<not> isQuote c"
    and q: "isQuote q1" "isQuote q2"
  shows "rmatch gemPattern (0, ''gem'' @ sp @ q1 # n @ q2 # rest, []) =
     rmatch gemSecondArg (5 + length sp + length n, rest, [(1, n)])
     @ [(5 + length sp + length n, rest, [(1, n)])]"
proof -
  obtain c sp' where sp': "sp = c # sp'" using sp(1) by (cases sp) auto
  define R3 where "R3 = Seq (Opt gemSecondArg) Eps"
  define R1 where "R1 = Seq reQuote (Seq (Group 1 (Plus reNotQuote)) (Seq reQuote R3))"
  have gp: "gemPattern =
      Seq (Lit (CHR ''g'')) (Seq (Lit (CHR ''e'')) (Seq (Lit (CHR ''m'')) (Seq (Plus reSpace) R1)))"
    by (simp add: gemPattern_def gemSecondArg_def R3_def R1_def)
  have s1: "rmatch gemPattern (0, ''gem'' @ sp @ q1 # n @ q2 # rest, [])
      = concat (map (rmatch R1) (rmatch (Star reSpace) (4, sp' @ q1 # n @ q2 # rest, [])))"
    unfolding gp Plus_def sp' using sp(2)
    by (simp add: sp' reSpace_step eval_nat_numeral del: rmatch.simps(6))
  have s2: "concat (map (rmatch R1) (rmatch (Star reSpace) (4, sp' @ q1 # n @ q2 # rest, [])))
      = rmatch R1 (4 + length sp', q1 # n @ q2 # rest, [])"
  proof (rule Star_then[where P = reSpaceChar])
    show "\<forall>c\<in>set sp'. reSpaceChar c" using sp(2) by (simp add: sp')
    show "\<And>j c r h. reSpaceChar c \<Longrightarrow> rmatch R1 (j, c # r, h) = []"
      using not_space_quote by (auto simp: R1_def reQuote_step)
    show "q1 # n @ q2 # rest = [] \<or> \<not> reSpaceChar (hd (q1 # n @ q2 # rest))"
      using q by (simp add: not_space_quote)
  qed (simp_all add: reSpace_step)
  have s3: "rmatch R1 (4 + length sp', q1 # n @ q2 # rest, [])
      = rmatch R3 (Suc (Suc (4 + length sp') + length n), rest, [(1, n)])"
    unfolding R1_def using q quoted_group[OF n, of "q2 # rest" 1 R3 "Suc (4 + length sp')" "[]"]
    by (simp add: reQuote_step)
  have s4: "rmatch R3 (Suc (Suc (4 + length sp') + length n), rest, [(1, n)])
      = rmatch gemSecondArg (5 + length sp + length n, rest, [(1, n)])
        @ [(5 + length sp + length n, rest, [(1, n)])]"
    unfolding R3_def sp' by (simp add: eval_nat_numeral concat_map_Eps)
  show ?thesis by (simp only: s1 s2 s3 s4)
qed

lemma gemPattern_submatch:
  assumes sp: "sp \<noteq> []" "\<forall>c \<in> set sp. reSpaceChar c"
    and n: "n \<noteq> []" "\<forall>c \<in> set n. \<not> isQuote c"
    and q: "isQuote q1" "isQuote q2"
  shows "\<exists>m0. FindStringSubmatch gemPattern 2 (''gem'' @ sp @ q1 # n @ q2 # rest) =
     [m0, n, case secondArg rest of None \<Rightarrow> [] | Some v \<Rightarrow> v]"
proof (cases "secondArg rest")
  case None
  have "rmatch gemPattern (0, ''gem'' @ sp @ q1 # n @ q2 # rest, []) =
      [(5 + length sp + length n, rest, [(1, n)])]"
    unfolding gemPattern_decl[OF assms] gemSecondArg_fails[OF None] by simp
  then have "rsearch gemPattern 0 (''gem'' @ sp @ q1 # n @ q2 # rest) =
      Some (0, (5 + length sp + length n, rest, [(1, n)]))"
    by simp
  then show ?thesis
    unfolding FindStringSubmatch_def None by (simp add: upt_rec)
next
  case (Some v)
  from gemSecondArg_matches[OF Some, of "5 + length sp + length n" "[(1, n)]"]
  obtain j t where "rmatch gemSecondArg (5 + length sp + length n, rest, [(1, n)]) = [(j, t, [(2, v), (1, n)])]"
    by blast
  then have "rmatch gemPattern (0, ''gem'' @ sp @ q1 # n @ q2 # rest, []) =
      [(j, t, [(2, v), (1, n)]), (5 + length sp + length n, rest, [(1, n)])]"
    unfolding gemPattern_decl[OF assms] by simp
  then have "rsearch gemPattern 0 (''gem'' @ sp @ q1 # n @ q2 # rest) = Some (0, (j, t, [(2, v), (1, n)]))"
    by simp
  then show ?thesis
    unfolding FindStringSubmatch_def Some by (simp add: upt_rec)
qed

lemma parseGemfile_loop_single:
  assumes "TrimSpace l = line" "\<not> HasPrefix line ''#''" "line \<noteq> []"
    and "FindStringSubmatch gemPattern 2 line = [m0, m1, m2]"
  shows "parseGemfile_loop [l] [] =
     [\<lparr>Name = m1, Version = (if m2 \<noteq> [] then m2 else ''*''), Type = ''production''\<rparr>]"
  using assms by (simp add: Let_def)

lemma parseGemfile_loop_decl:
  assumes l: "TrimSpace l = ''gem'' @ sp @ q1 # n @ q2 # rest"
    and sp: "sp \<noteq> []" "\<forall>c \<in> set sp. reSpaceChar c"
    and n: "n \<noteq> []" "\<forall>c \<in> set n. \<not> isQuote c"
    and q: "isQuote q1" "isQuote q2"
  shows "parseGemfile_loop [l] [] =
     [\<lparr>Name = n, Version = (case secondArg rest of None \<Rightarrow> ''*'' | Some v \<Rightarrow> v),
       Type = ''production''\<rparr>]"
proof -
  from gemPattern_submatch[OF sp n q, of rest] obtain m0 where
    m: "FindStringSubmatch gemPattern 2 (''gem'' @ sp @ q1 # n @ q2 # rest) =
     [m0, n, case secondArg rest of None \<Rightarrow> [] | Some v \<Rightarrow> v]" by blast
  have v: "\<And>v. secondArg rest = Some v \<Longrightarrow> v \<noteq> []"
    using gemSecondArg_matches by blast
  have h: "\<not> HasPrefix (''gem'' @ sp @ q1 # n @ q2 # rest) ''#''"
    by (simp add: HasPrefix_def)
  have ne: "''gem'' @ sp @ q1 # n @ q2 # rest \<noteq> []" by simp
  show ?thesis
    unfolding parseGemfile_loop_single[OF l h ne m]
    using v by (simp split: option.splits)
qed

lemma parseGemfile_loop_append:
  "parseGemfile_loop (pre @ [l] @ post) [] =
     parseGemfile_loop pre [] @ parseGemfile_loop [l] [] @ parseGemfile_loop post []"
  by (simp add: parseGemfile_loop_eq)

lemma secondArg_spaces:
  assumes "\<forall>c \<in> set ws. reSpaceChar c"
  shows "secondArg ws = None"
proof -
  have "dropWhile reSpaceChar ws = []" using assms by simp
  then show ?thesis by (simp only: secondArg_def list.case)
qed

lemma dropWhile_spaces:
  "\<forall>c \<in> set ws. reSpaceChar c \<Longrightarrow> \<not> reSpaceChar c \<Longrightarrow>
     dropWhile reSpaceChar (ws @ c # r) = c # r"
  by (simp add: dropWhile_append3)

lemma comma_not_space: "\<not> reSpaceChar (CHR '','')"
  by (simp add: reSpaceChar_def)

lemma secondArg_other:
  assumes "\<forall>c \<in> set ws. reSpaceChar c" "\<not> reSpaceChar c" "c \<noteq> CHR '',''"
  shows "secondArg (ws @ c # after) = None"
  using assms by (simp add: secondArg_def dropWhile_spaces)

lemma secondArg_unquoted:
  assumes "\<forall>c \<in> set ws1. reSpaceChar c" "\<forall>c \<in> set ws2. reSpaceChar c"
    "\<not> reSpaceChar c" "\<not> isQuote c"
  shows "secondArg (ws1 @ CHR '','' # ws2 @ c # after) = None"
  using assms by (simp add: secondArg_def dropWhile_spaces comma_not_space)

lemma secondArg_empty:
  assumes "\<forall>c \<in> set ws1. reSpaceChar c" "\<forall>c \<in> set ws2. reSpaceChar c"
    "isQuote q3" "isQuote q4"
  shows "secondArg (ws1 @ CHR '','' # ws2 @ q3 # q4 # after) = None"
  using assms not_space_quote[of q3]
  by (simp add: secondArg_def dropWhile_spaces comma_not_space)

lemma secondArg_given:
  assumes "\<forall>c \<in> set ws1. reSpaceChar c" "\<forall>c \<in> set ws2. reSpaceChar c"
    "isQuote q3" "isQuote q4" "v \<noteq> []" "\<forall>c \<in> set v. \<not> isQuote c"
  shows "secondArg (ws1 @ CHR '','' # ws2 @ q3 # v @ q4 # after) = Some v"
proof -
  have t: "takeWhile (\<lambda>c. \<not> isQuote c) (v @ q4 # after) = v"
    using assms(4,6) by (simp add: takeWhile_append2)
  have d: "dropWhile (\<lambda>c. \<not> isQuote c) (v @ q4 # after) = q4 # after"
    using assms(4,6) by (simp add: dropWhile_append3)
  show ?thesis
    using assms(1,2,3,5) not_space_quote[of q3]
    by (simp add: secondArg_def dropWhile_spaces comma_not_space t d del: dropWhile_eq_Nil_conv)
qed

text \<open>
  C9. Every entry of the Gemfile parser has type \<^verbatim>\<open>production\<close>. Let a line \<open>l\<close> of any
  Gemfile be a \<^verbatim>\<open>gem\<close> declaration: trimmed, it is \<^verbatim>\<open>gem\<close>, white space, a quote, a name
  \<open>n\<close> (not empty, with no quote in it), a quote, and anything \<open>rest\<close> after it. Then the
  parser yields for this line, between the entries of the lines before it and the
  entries of the lines after it, the one entry \<open>n\<close> whose version is the second quoted
  argument when \<open>rest\<close> holds one, and \<^verbatim>\<open>*\<close> when it holds none. \<open>rest\<close> holds none when
  it is empty or white space, when it goes on with something other than a comma, when
  what follows the comma is not quoted, and when the second argument is the empty
  string; it holds \<open>v\<close> when it is a comma and \<open>v\<close> between quotes. The examples of the
  specification evaluate as it says.
\<close>

theorem parseGemfile_default_version:
  \<open>(\<forall>d \<in> set (fst (parseGemfile content)). Type d = ''production'')
   \<and> (Split content (CHR 0x0A) = pre @ [l] @ post
        \<and> TrimSpace l = ''gem'' @ sp @ [q1] @ n @ [q2] @ rest
        \<and> sp \<noteq> [] \<and> (\<forall>c \<in> set sp. reSpaceChar c) \<and> isQuote q1 \<and> isQuote q2
        \<and> n \<noteq> [] \<and> (\<forall>c \<in> set n. \<not> isQuote c) \<longrightarrow>
        parseGemfile content
          = (parseGemfile_loop pre []
               @ [\<lparr>Name = n, Version = (case secondArg rest of None \<Rightarrow> ''*'' | Some v \<Rightarrow> v),
                    Type = ''production''\<rparr>]
               @ parseGemfile_loop post [], ''ruby''))
   \<and> ((\<forall>c \<in> set ws1. reSpaceChar c) \<and> (\<forall>c \<in> set ws2. reSpaceChar c)
        \<and> isQuote q3 \<and> isQuote q4 \<longrightarrow>
        secondArg ws1 = None
        \<and> (\<not> reSpaceChar c \<and> c \<noteq> CHR '','' \<longrightarrow> secondArg (ws1 @ c # after) = None)
        \<and> (\<not> reSpaceChar c \<and> \<not> isQuote c \<longrightarrow>
              secondArg (ws1 @ '','' @ ws2 @ c # after) = None)
        \<and> secondArg (ws1 @ '','' @ ws2 @ [q3, q4] @ after) = None
        \<and> (v \<noteq> [] \<and> (\<forall>c \<in> set v. \<not> isQuote c) \<longrightarrow>
              secondArg (ws1 @ '','' @ ws2 @ [q3] @ v @ [q4] @ after) = Some v))
   \<and> parseGemfile ''gem "rails", "7.0"''
        = ([\<lparr>Name = ''rails'', Version = ''7.0'', Type = ''production''\<rparr>], ''ruby'')
   \<and> parseGemfile ''gem "rails", "7.0"\<newline>''
        = ([\<lparr>Name = ''rails'', Version = ''7.0'', Type = ''production''\<rparr>], ''ruby'')
   \<and> parseGemfile ''gem "pry"''
        = ([\<lparr>Name = ''pry'', Version = ''*'', Type = ''production''\<rparr>], ''ruby'')
   \<and> parseGemfile ''gem "pry"\<newline>''
        = ([\<lparr>Name = ''pry'', Version = ''*'', Type = ''production''\<rparr>], ''ruby'')\<close>
proof (intro conjI impI)
  show "\<forall>d \<in> set (fst (parseGemfile content)). Type d = ''production''"
    by (auto simp: parseGemfile_def parseGemfile_loop_eq dest: gemLine_production)
next
  assume a: "Split content (CHR 0x0A) = pre @ [l] @ post
        \<and> TrimSpace l = ''gem'' @ sp @ [q1] @ n @ [q2] @ rest
        \<and> sp \<noteq> [] \<and> (\<forall>c \<in> set sp. reSpaceChar c) \<and> isQuote q1 \<and> isQuote q2
        \<and> n \<noteq> [] \<and> (\<forall>c \<in> set n. \<not> isQuote c)"
  then have s: "Split content (CHR 0x0A) = pre @ [l] @ post"
    and l: "TrimSpace l = ''gem'' @ sp @ q1 # n @ q2 # rest"
    and sp: "sp \<noteq> []" "\<forall>c \<in> set sp. reSpaceChar c"
    and q: "isQuote q1" "isQuote q2"
    and n: "n \<noteq> []" "\<forall>c \<in> set n. \<not> isQuote c"
    by simp_all
  show "parseGemfile content
          = (parseGemfile_loop pre []
               @ [\<lparr>Name = n, Version = (case secondArg rest of None \<Rightarrow> ''*'' | Some v \<Rightarrow> v),
                    Type = ''production''\<rparr>]
               @ parseGemfile_loop post [], ''ruby'')"
    unfolding parseGemfile_def s parseGemfile_loop_append[of pre l post]
      parseGemfile_loop_decl[OF l sp n q]
    by (rule refl)
next
  assume a: "(\<forall>c \<in> set ws1. reSpaceChar c) \<and> (\<forall>c \<in> set ws2. reSpaceChar c)
        \<and> isQuote q3 \<and> isQuote q4"
  then have ws: "\<forall>c \<in> set ws1. reSpaceChar c" "\<forall>c \<in> set ws2. reSpaceChar c"
    and q: "isQuote q3" "isQuote q4"
    by simp_all
  show "secondArg ws1 = None"
    by (rule secondArg_spaces[OF ws(1)])
  show "secondArg (ws1 @ '','' @ ws2 @ [q3, q4] @ after) = None"
    using secondArg_empty[OF ws q] by simp
  {
    assume "\<not> reSpaceChar c \<and> c \<noteq> CHR '',''"
    then show "secondArg (ws1 @ c # after) = None"
      using secondArg_other[OF ws(1)] by simp
  }
  {
    assume "\<not> reSpaceChar c \<and> \<not> isQuote c"
    then show "secondArg (ws1 @ '','' @ ws2 @ c # after) = None"
      using secondArg_unquoted[OF ws] by simp
  }
  {
    assume "v \<noteq> [] \<and> (\<forall>c \<in> set v. \<not> isQuote c)"
    then show "secondArg (ws1 @ '','' @ ws2 @ [q3] @ v @ [q4] @ after) = Some v"
      using secondArg_given[OF ws q, of v after] by simp
  }
next
  show \<open>parseGemfile ''gem "rails", "7.0"''
        = ([\<lparr>Name = ''rails'', Version = ''7.0'', Type = ''production''\<rparr>], ''ruby'')\<close>
    by code_simp
  show \<open>parseGemfile ''gem "rails", "7.0"\<newline>''
        = ([\<lparr>Name = ''rails'', Version = ''7.0'', Type = ''production''\<rparr>], ''ruby'')\<close>
    by code_simp
  show \<open>parseGemfile ''gem "pry"''
        = ([\<lparr>Name = ''pry'', Version = ''*'', Type = ''production''\<rparr>], ''ruby'')\<close>
    by code_simp
  show \<open>parseGemfile ''gem "pry"\<newline>''
        = ([\<lparr>Name = ''pry'', Version = ''*'', Type = ''production''\<rparr>], ''ruby'')\<close>
    by code_simp
qed

theorem parseGemfile_default_version_witness:
  \<open>parseGemfile declaredGemfile
     = ([\<lparr>Name = ''pry'', Version = ''*'', Type = ''production''\<rparr>,
         \<lparr>Name = ''rails'', Version = ''7.0'', Type = ''production''\<rparr>,
         \<lparr>Name = ''rack'', Version = ''*'', Type = ''production''\<rparr>], ''ruby'')
   \<and> list_all (\<lambda>d. Type d = ''production'') (fst (parseGemfile declaredGemfile))
   \<and> secondArg [] = None
   \<and> secondArg '', :'' = None
   \<and> secondArg '', ""'' = None
   \<and> secondArg '', "7.0"'' = Some ''7.0''\<close>
proof -
  have s: \<open>Split declaredGemfile (CHR 0x0A) =
      [''source "https://rubygems.org"'', [], ''# web'']
      @ [''  gem   'pry', require: false'']
      @ [''gem "rails", "7.0"'', [], ''gem "rack" , ""'', []]\<close>
    by code_simp
  have l: \<open>TrimSpace ''  gem   'pry', require: false''
      = ''gem'' @ ''   '' @ [CHR 0x27] @ ''pry'' @ [CHR 0x27] @ '', require: false''\<close>
    by code_simp
  have pre: \<open>parseGemfile_loop [''source "https://rubygems.org"'', [], ''# web''] [] = []\<close>
    by code_simp
  have post: \<open>parseGemfile_loop [''gem "rails", "7.0"'', [], ''gem "rack" , ""'', []] []
      = [\<lparr>Name = ''rails'', Version = ''7.0'', Type = ''production''\<rparr>,
         \<lparr>Name = ''rack'', Version = ''*'', Type = ''production''\<rparr>]\<close>
    by code_simp
  have a: \<open>secondArg '', require: false'' = None\<close>
    by code_simp
  show ?thesis
    using parseGemfile_default_version
      [of declaredGemfile \<open>[''source "https://rubygems.org"'', [], ''# web'']\<close>
          \<open>''  gem   'pry', require: false''\<close>
          \<open>[''gem "rails", "7.0"'', [], ''gem "rack" , ""'', []]\<close>
          \<open>''   ''\<close> \<open>CHR 0x27\<close> \<open>''pry''\<close> \<open>CHR 0x27\<close> \<open>'', require: false''\<close>
          \<open>[]\<close> \<open>'' ''\<close> \<open>CHR 0x22\<close> \<open>CHR 0x22\<close> \<open>CHR '':''\<close> \<open>[]\<close> \<open>''7.0''\<close>]
    by (simp add: s l a pre post reSpaceChar_def isQuote_def list_all_iff
          del: parseGemfile_loop.simps)
qed

lemma mset_insertLeft: "mset (insertLeft lt x ys) = add_mset x (mset ys)"
  by (induction ys) auto

lemma set_insertLeft: "set (insertLeft lt x ys) = insert x (set ys)"
  by (induction ys) auto

lemma sorted_insertLeft:
  fixes f :: "'a \<Rightarrow> 'b::linorder"
  shows "sorted (rev (map f ys)) \<Longrightarrow> sorted (rev (map f (insertLeft (\<lambda>a b. f a < f b) x ys)))"
proof (induction ys)
  case Nil
  then show ?case by simp
next
  case (Cons y ys)
  then show ?case
    by (auto simp: sorted_append set_insertLeft)
qed

lemma mset_foldl_insertLeft:
  "mset (foldl (\<lambda>acc x. insertLeft lt x acc) acc xs) = mset acc + mset xs"
  by (induction xs arbitrary: acc) (simp_all add: mset_insertLeft)

lemma sorted_foldl_insertLeft:
  fixes f :: "'a \<Rightarrow> 'b::linorder"
  shows "sorted (rev (map f acc)) \<Longrightarrow>
    sorted (rev (map f (foldl (\<lambda>acc x. insertLeft (\<lambda>a b. f a < f b) x acc) acc xs)))"
  by (induction xs arbitrary: acc) (simp_all add: sorted_insertLeft)

lemma insertionSort_sorts:
  fixes f :: "'a \<Rightarrow> 'b::linorder"
  shows "mset (insertionSort xs (\<lambda>a b. f a < f b)) = mset xs
    \<and> sorted (map f (insertionSort xs (\<lambda>a b. f a < f b)))"
  using sorted_foldl_insertLeft[of f "[]" xs]
  by (simp add: insertionSort_def mset_foldl_insertLeft rev_map)

lemma specRuntime_ok: "mapRange_ok specRuntime \<and> sortSlice_ok specRuntime"
  by (simp add: specRuntime_def exampleRuntime_def mapRange_ok_def sortSlice_ok_def insertionSort_sorts)

lemma exampleRuntime_ok: "mapRange_ok exampleRuntime \<and> sortSlice_ok exampleRuntime"
  by (simp add: exampleRuntime_def mapRange_ok_def sortSlice_ok_def insertionSort_sorts)

lemma mset_pkgEntries_mapRange:
  "mapRange_ok rt \<Longrightarrow> mset (pkgEntries t (mapRange rt m)) = mset (pkgEntries t m)"
  by (simp add: pkgEntries_def mapRange_ok_def)

lemma sorted_pair_unique:
  fixes f :: "'a \<Rightarrow> 'b::linorder"
  assumes "mset xs = {#a, b#}" "sorted (map f xs)" "f a < f b"
  shows "xs = [a, b]"
proof -
  from assms(1) have "length xs = 2" by (metis size_mset size_add_mset size_empty numeral_2_eq_2)
  then obtain x y where xs: "xs = [x, y]"
    by (metis (no_types, opaque_lifting) Suc_length_conv length_0_conv numeral_2_eq_2)
  with assms(1) have "(x = a \<and> y = b) \<or> (x = b \<and> y = a)"
    by (auto simp: add_eq_conv_ex)
  with assms(2,3) xs show ?thesis by auto
qed

text \<open>
  C3. When the content decodes, whatever order the \<^verbatim>\<open>range\<close> loops visit the maps in and
  whichever sorted arrangement \<^verbatim>\<open>sort.Slice\<close> picks, the result of the npm parser is
  sorted ascending by name and holds exactly the entries of the production, dev and
  peer maps (with their tags). For the maps \<^verbatim>\<open>{"a":"^1.0"}\<close> and \<^verbatim>\<open>{"b":"~2.0"}\<close> it is
  the list of the specification.
\<close>

theorem parsePackageJSON_sorted_by_name:
  assumes "mapRange_ok rt" and "sortSlice_ok rt" and "Unmarshal rt content = Inr pkg"
  shows "sorted (map Name (fst (parsePackageJSON rt content)))
     \<and> mset (fst (parsePackageJSON rt content)) =
         mset (pkgEntries ''production'' (pkgDependencies pkg))
         + mset (pkgEntries ''dev'' (pkgDevDependencies pkg))
         + mset (pkgEntries ''peer'' (pkgPeerDeps pkg))
     \<and> (pkgDependencies pkg = [(''a'', ''^1.0'')] \<and> pkgDevDependencies pkg = [(''b'', ''~2.0'')]
          \<and> pkgPeerDeps pkg = [] \<longrightarrow>
        parsePackageJSON rt content =
          ([\<lparr>Name = ''a'', Version = ''^1.0'', Type = ''production''\<rparr>,
            \<lparr>Name = ''b'', Version = ''~2.0'', Type = ''dev''\<rparr>], ''npm''))"
proof -
  let ?deps = "pkgEntries ''production'' (mapRange rt (pkgDependencies pkg))
      @ pkgEntries ''dev'' (mapRange rt (pkgDevDependencies pkg))
      @ pkgEntries ''peer'' (mapRange rt (pkgPeerDeps pkg))"
  have p: "parsePackageJSON rt content = (sortSlice rt ?deps (\<lambda>a b. Name a < Name b), ''npm'')"
    using assms(3) by (simp add: parsePackageJSON_def)
  from assms(2) have srt: "sorted (map Name (sortSlice rt ?deps (\<lambda>a b. Name a < Name b)))"
    and ms: "mset (sortSlice rt ?deps (\<lambda>a b. Name a < Name b)) = mset ?deps"
    by (simp_all add: sortSlice_ok_def)
  have ms': "mset ?deps = mset (pkgEntries ''production'' (pkgDependencies pkg))
         + mset (pkgEntries ''dev'' (pkgDevDependencies pkg))
         + mset (pkgEntries ''peer'' (pkgPeerDeps pkg))"
    using assms(1) by (simp add: mset_pkgEntries_mapRange)
  have ex: "parsePackageJSON rt content =
          ([\<lparr>Name = ''a'', Version = ''^1.0'', Type = ''production''\<rparr>,
            \<lparr>Name = ''b'', Version = ''~2.0'', Type = ''dev''\<rparr>], ''npm'')"
    if m: "pkgDependencies pkg = [(''a'', ''^1.0'')] \<and> pkgDevDependencies pkg = [(''b'', ''~2.0'')]
          \<and> pkgPeerDeps pkg = []"
  proof -
    have t1: "TrimSpace ''^1.0'' = ''^1.0''" by code_simp
    have t2: "TrimSpace ''~2.0'' = ''~2.0''" by code_simp
    have "mset (sortSlice rt ?deps (\<lambda>a b. Name a < Name b)) =
        {#\<lparr>Name = ''a'', Version = ''^1.0'', Type = ''production''\<rparr>,
          \<lparr>Name = ''b'', Version = ''~2.0'', Type = ''dev''\<rparr>#}"
      unfolding ms ms' using m by (simp add: pkgEntries_def cleanVersion_def t1 t2)
    then have "sortSlice rt ?deps (\<lambda>a b. Name a < Name b) =
        [\<lparr>Name = ''a'', Version = ''^1.0'', Type = ''production''\<rparr>,
          \<lparr>Name = ''b'', Version = ''~2.0'', Type = ''dev''\<rparr>]"
      using srt by (rule sorted_pair_unique) simp
    then show ?thesis by (simp only: p)
  qed
  show ?thesis
    using srt ms ms' ex by (simp add: p)
qed

theorem parsePackageJSON_sorted_by_name_witness:
  \<open>parsePackageJSON specRuntime ''{"dependencies":{"a":"^1.0"},"devDependencies":{"b":"~2.0"}}'' =
     ([\<lparr>Name = ''a'', Version = ''^1.0'', Type = ''production''\<rparr>,
       \<lparr>Name = ''b'', Version = ''~2.0'', Type = ''dev''\<rparr>], ''npm'')\<close>
proof -
  have u: \<open>Unmarshal specRuntime ''{"dependencies":{"a":"^1.0"},"devDependencies":{"b":"~2.0"}}''
      = Inr \<lparr>pkgDependencies = [(''a'', ''^1.0'')],
                  pkgDevDependencies = [(''b'', ''~2.0'')],
                  pkgPeerDeps = []\<rparr>\<close>
    by (simp add: specRuntime_def)
  show ?thesis
    using parsePackageJSON_sorted_by_name[OF specRuntime_ok[THEN conjunct1] specRuntime_ok[THEN conjunct2] u]
    by simp
qed

lemma parseGoMod_checked_loop_eq:
  "parseGoMod_checked_loop lines inRequire deps = Inr (parseGoMod_loop lines inRequire deps)"
  by (induction lines arbitrary: inRequire deps)
     (simp_all add: Let_def sliceIndex_def andThen_def split: list.splits)

lemma parseRequirementsTxt_checked_loop_eq:
  "parseRequirementsTxt_checked_loop lines deps = Inr (parseRequirementsTxt_loop lines deps)"
  by (induction lines arbitrary: deps)
     (simp_all add: Let_def sliceIndex_def andThen_def split: list.splits)

lemma parseCargoToml_checked_loop_eq:
  "parseCargoToml_checked_loop lines inDeps inDevDeps deps =
     Inr (parseCargoToml_loop lines inDeps inDevDeps deps)"
  by (induction lines arbitrary: inDeps inDevDeps deps)
     (simp_all add: Let_def sliceIndex_def andThen_def split: list.splits)

lemma parseGemfile_checked_loop_eq:
  "parseGemfile_checked_loop lines deps = Inr (parseGemfile_loop lines deps)"
  by (induction lines arbitrary: deps)
     (simp_all add: Let_def sliceIndex_def andThen_def split: list.splits)

text \<open>
  C7. No parser signals an error, on any content. The four line parsers never panic: run
  with the index checks of Go, each returns, and what it returns is the list of the
  parser paired with its tag (the guards \<^verbatim>\<open>len(parts) >= 3\<close>, \<^verbatim>\<open>len(matches) >= 2\<close>, ...
  keep every index in range). Each of the five parsers pairs its list with its own tag,
  and the npm parser returns the empty list when \<^verbatim>\<open>json.Unmarshal\<close> returns an error; the
  comparison it gives to \<^verbatim>\<open>sort.Slice\<close> does not panic at positions of the slice.
  Contents that stop short of what a guard protects (a \<^verbatim>\<open>require\<close> with no version, a
  \<^verbatim>\<open>gem\<close> with no name, ...) evaluate without a panic.
\<close>

theorem parsers_total:
  \<open>parseGoMod_checked content = Inr (parseGoMod content)
   \<and> parseRequirementsTxt_checked content = Inr (parseRequirementsTxt content)
   \<and> parseCargoToml_checked content = Inr (parseCargoToml content)
   \<and> parseGemfile_checked content = Inr (parseGemfile content)
   \<and> snd (parsePackageJSON rt content) = ''npm''
   \<and> snd (parseGoMod content) = ''go''
   \<and> snd (parseRequirementsTxt content) = ''python''
   \<and> snd (parseCargoToml content) = ''rust''
   \<and> snd (parseGemfile content) = ''ruby''
   \<and> (\<forall>err. Unmarshal rt content = Inl err \<longrightarrow> parsePackageJSON rt content = ([], ''npm''))
   \<and> (i < length deps \<and> j < length deps \<longrightarrow>
        parsePackageJSON_less deps i j = Inr (Name (deps ! i) < Name (deps ! j)))
   \<and> parseGoMod_checked ''require example.com/m\<newline>require example.com/n v1.0.0'' =
         Inr ([\<lparr>Name = ''example.com/n'', Version = ''v1.0.0'', Type = ''production''\<rparr>], ''go'')
   \<and> parseGoMod_checked ''require (\<newline>example.com/m\<newline>example.com/n v1.0.0\<newline>)'' =
         Inr ([\<lparr>Name = ''example.com/n'', Version = ''v1.0.0'', Type = ''production''\<rparr>], ''go'')
   \<and> parseRequirementsTxt_checked ''flask ==\<newline>== 2.0\<newline>a b'' =
         Inr ([\<lparr>Name = ''flask'', Version = ''=='', Type = ''production''\<rparr>], ''python'')
   \<and> parseCargoToml_checked ''[dependencies]\<newline>=\<newline>serde'' =
         Inr ([\<lparr>Name = [], Version = [], Type = ''production''\<rparr>], ''rust'')
   \<and> parseGemfile_checked ''gem\<newline>gem "\<newline>gem "", "1"\<newline>gem "rack"'' =
         Inr ([\<lparr>Name = ''rack'', Version = ''*'', Type = ''production''\<rparr>], ''ruby'')\<close>
proof (intro conjI allI impI)
  show "parseGoMod_checked content = Inr (parseGoMod content)"
    by (simp add: parseGoMod_checked_def parseGoMod_def parseGoMod_checked_loop_eq andThen_def)
  show "parseRequirementsTxt_checked content = Inr (parseRequirementsTxt content)"
    by (simp add: parseRequirementsTxt_checked_def parseRequirementsTxt_def
        parseRequirementsTxt_checked_loop_eq andThen_def)
  show "parseCargoToml_checked content = Inr (parseCargoToml content)"
    by (simp add: parseCargoToml_checked_def parseCargoToml_def
        parseCargoToml_checked_loop_eq andThen_def)
  show "parseGemfile_checked content = Inr (parseGemfile content)"
    by (simp add: parseGemfile_checked_def parseGemfile_def parseGemfile_checked_loop_eq
        andThen_def)
  show "snd (parsePackageJSON rt content) = ''npm''"
    by (simp add: parsePackageJSON_def Let_def split: sum.splits)
  show "snd (parseGoMod content) = ''go''"
    by (simp add: parseGoMod_def)
  show "snd (parseRequirementsTxt content) = ''python''"
    by (simp add: parseRequirementsTxt_def)
  show "snd (parseCargoToml content) = ''rust''"
    by (simp add: parseCargoToml_def)
  show "snd (parseGemfile content) = ''ruby''"
    by (simp add: parseGemfile_def)
  show "parsePackageJSON rt content = ([], ''npm'')" if "Unmarshal rt content = Inl err" for err
    using that by (simp add: parsePackageJSON_def)
  show "parsePackageJSON_less deps i j = Inr (Name (deps ! i) < Name (deps ! j))"
    if "i < length deps \<and> j < length deps"
    using that by (simp add: parsePackageJSON_less_def sliceIndex_def andThen_def)
  show \<open>parseGoMod_checked ''require example.com/m\<newline>require example.com/n v1.0.0'' =
         Inr ([\<lparr>Name = ''example.com/n'', Version = ''v1.0.0'', Type = ''production''\<rparr>], ''go'')\<close>
    by code_simp
  show \<open>parseGoMod_checked ''require (\<newline>example.com/m\<newline>example.com/n v1.0.0\<newline>)'' =
         Inr ([\<lparr>Name = ''example.com/n'', Version = ''v1.0.0'', Type = ''production''\<rparr>], ''go'')\<close>
    by code_simp
  show \<open>parseRequirementsTxt_checked ''flask ==\<newline>== 2.0\<newline>a b'' =
         Inr ([\<lparr>Name = ''flask'', Version = ''=='', Type = ''production''\<rparr>], ''python'')\<close>
    by code_simp
  show \<open>parseCargoToml_checked ''[dependencies]\<newline>=\<newline>serde'' =
         Inr ([\<lparr>Name = [], Version = [], Type = ''production''\<rparr>], ''rust'')\<close>
    by code_simp
  show \<open>parseGemfile_checked ''gem\<newline>gem "\<newline>gem "", "1"\<newline>gem "rack"'' =
         Inr ([\<lparr>Name = ''rack'', Version = ''*'', Type = ''production''\<rparr>], ''ruby'')\<close>
    by code_simp
qed

theorem parsers_total_witness:
  \<open>parsePackageJSON exampleRuntime ''{"dependencies": ["left-pad"'' = ([], ''npm'')
   \<and> parseGoMod_checked ''{"dependencies": ["left-pad"'' = Inr ([], ''go'')
   \<and> parseGemfile_checked ''{"dependencies": ["left-pad"'' = Inr ([], ''ruby'')
   \<and> parsePackageJSON_less
         [\<lparr>Name = ''b'', Version = ''~2.0'', Type = ''dev''\<rparr>,
          \<lparr>Name = ''a'', Version = ''^1.0'', Type = ''production''\<rparr>] 1 0 = Inr True\<close>
proof -
  have u: \<open>\<exists>err. Unmarshal exampleRuntime ''{"dependencies": ["left-pad"'' = Inl err\<close>
    by (simp add: exampleRuntime_def examplePackageJSON_def)
  have g: \<open>parseGoMod ''{"dependencies": ["left-pad"'' = ([], ''go'')\<close>
    by code_simp
  have r: \<open>parseGemfile ''{"dependencies": ["left-pad"'' = ([], ''ruby'')\<close>
    by code_simp
  have n: "''a'' < ''b''"
    by code_simp
  show ?thesis
    using parsers_total
      [where content = \<open>''{"dependencies": ["left-pad"''\<close> and rt = exampleRuntime
         and deps = \<open>[\<lparr>Name = ''b'', Version = ''~2.0'', Type = ''dev''\<rparr>,
                       \<lparr>Name = ''a'', Version = ''^1.0'', Type = ''production''\<rparr>]\<close>
         and i = 1 and j = 0] u
    by (auto simp add: g r n)
qed

text \<open>
  C1. A single-line requirement with the marker \<^verbatim>\<open>// indirect\<close> is given the type
  \<^verbatim>\<open>production\<close>: the single-line branch never looks for the marker. The same
  requirement inside a \<^verbatim>\<open>require (\<close> block is given the type \<^verbatim>\<open>indirect\<close>.
\<close>

theorem parseGoMod_single_line_indirect:
  \<open>parseGoMod ''require github.com/x/y v1.2.3 // indirect''
     = ([\<lparr>Name = ''github.com/x/y'', Version = ''v1.2.3'', Type = ''production''\<rparr>], ''go'')
   \<and> parseGoMod ''require (\<newline>github.com/x/y v1.2.3 // indirect\<newline>)''
     = ([\<lparr>Name = ''github.com/x/y'', Version = ''v1.2.3'', Type = ''indirect''\<rparr>], ''go'')\<close>
  by code_simp

section \<open>Properties of the exports\<close>

lemma take_drop_step:
  "i < m \<Longrightarrow> m \<le> length cs \<Longrightarrow>
   take (m - i) (drop i cs) = cs ! i # take (m - Suc i) (drop (Suc i) cs)"
proof -
  assume a: "i < m" "m \<le> length cs"
  then have "drop i cs = cs ! i # drop (Suc i) cs" by (simp add: Cons_nth_drop_Suc)
  moreover from a have "m - i = Suc (m - Suc i)" by simp
  ultimately show ?thesis by simp
qed

declare ExportJSON_loop.simps [simp del] ExportMarkdown_loop.simps [simp del]

lemma ExportJSON_loop_step:
  "i < m \<Longrightarrow> i < length cs \<Longrightarrow>
   ExportJSON_loop i m cs acc = ExportJSON_loop (Suc i) m cs (acc @ [contributorExport (cs ! i)])"
  by (subst ExportJSON_loop.simps) (simp add: contributorExport_def)

lemma ExportJSON_loop_stop: "\<not> i < m \<Longrightarrow> ExportJSON_loop i m cs acc = Some acc"
  by (subst ExportJSON_loop.simps) simp

lemma ExportJSON_loop_closed:
  "i \<le> m \<Longrightarrow> m \<le> length cs \<Longrightarrow>
   ExportJSON_loop i m cs acc = Some (acc @ map contributorExport (take (m - i) (drop i cs)))"
proof (induction "m - i" arbitrary: i acc)
  case 0
  then show ?case by (simp add: ExportJSON_loop_stop)
next
  case (Suc k)
  then have lt: "i < m" "i < length cs" and k: "k = m - Suc i" "Suc i \<le> m" by simp_all
  show ?case
    unfolding ExportJSON_loop_step[OF lt] Suc.hyps(1)[OF k Suc.prems(2)]
    using lt Suc.prems by (simp add: take_drop_step)
qed

lemma ExportMarkdown_loop_step:
  "i < m \<Longrightarrow> i < length cs \<Longrightarrow>
   ExportMarkdown_loop i m cs md = ExportMarkdown_loop (Suc i) m cs (md @ contributorLine (i, cs ! i))"
  by (subst ExportMarkdown_loop.simps) (simp add: contributorLine_def Let_def)

lemma ExportMarkdown_loop_stop: "\<not> i < m \<Longrightarrow> ExportMarkdown_loop i m cs md = Some md"
  by (subst ExportMarkdown_loop.simps) simp

lemma ExportMarkdown_loop_closed:
  "i \<le> m \<Longrightarrow> m \<le> length cs \<Longrightarrow>
   ExportMarkdown_loop i m cs md =
     Some (md @ concat (map contributorLine (List.enumerate i (take (m - i) (drop i cs)))))"
proof (induction "m - i" arbitrary: i md)
  case 0
  then show ?case by (simp add: ExportMarkdown_loop_stop)
next
  case (Suc k)
  then have lt: "i < m" "i < length cs" and k: "k = m - Suc i" "Suc i \<le> m" by simp_all
  show ?case
    unfolding ExportMarkdown_loop_step[OF lt] Suc.hyps(1)[OF k Suc.prems(2)]
    using lt Suc.prems by (simp add: take_drop_step)
qed

lemma maxContribs_eq: "(if length cs < 10 then length cs else 10) = min 10 (length cs)"
  by simp

lemma ExportJSON_loop_0:
  "ExportJSON_loop 0 (if length cs < 10 then length cs else 10) cs [] =
     Some (map contributorExport (take 10 cs))"
  by (simp add: ExportJSON_loop_closed min_def)

lemma ExportMarkdown_loop_0:
  "ExportMarkdown_loop 0 (if length cs < 10 then length cs else 10) cs md =
     Some (md @ contributorLines (take 10 cs))"
  by (simp add: ExportMarkdown_loop_closed contributorLines_def min_def)

lemma ExportJSON_Writes:
  "ExportJSON sys data filename = Writes fn doc \<Longrightarrow>
   TopContributors doc = map contributorExport (take 10 (Contributors data))"
  unfolding ExportJSON_def Let_def ExportJSON_loop_0
  by (auto split: option.splits)

lemma ExportMarkdown_Writes:
  "ExportMarkdown sys data filename = Writes fn md \<Longrightarrow>
   \<exists>head. md = head @ ''## Top Contributors\<newline>'' @ contributorLines (take 10 (Contributors data))"
  unfolding ExportMarkdown_def Let_def ExportMarkdown_loop_0
  by (auto split: option.splits simp del: append_assoc simp add: append_assoc[symmetric])

lemma exports_write:
  "Repo data \<noteq> None \<Longrightarrow> Create sys filename = None \<Longrightarrow> WriteError sys filename = None \<Longrightarrow>
   (\<exists>doc. ExportJSON sys data filename = Writes filename doc)
   \<and> (\<exists>md. ExportMarkdown sys data filename = Writes filename md)"
  unfolding ExportJSON_def ExportMarkdown_def Let_def ExportJSON_loop_0 ExportMarkdown_loop_0
  by auto

lemma ExportJSON_beyond_tenth:
  "take 10 cs' = take 10 (Contributors data) \<Longrightarrow>
   ExportJSON sys (data\<lparr>Contributors := cs'\<rparr>) filename = ExportJSON sys data filename"
  unfolding ExportJSON_def Let_def ExportJSON_loop_0 by (simp split: option.splits)

lemma ExportMarkdown_beyond_tenth:
  "take 10 cs' = take 10 (Contributors data) \<Longrightarrow> length cs' = length (Contributors data) \<Longrightarrow>
   ExportMarkdown sys (data\<lparr>Contributors := cs'\<rparr>) filename = ExportMarkdown sys data filename"
  unfolding ExportMarkdown_def Let_def ExportMarkdown_loop_0 by (simp split: option.splits)


text \<open>
  C10. Whenever an export writes its file, the JSON document lists the first
  \<open>min 10 n\<close> of the \<open>n\<close> contributors, in their order, and the Markdown text ends with
  the heading of the contributors and one numbered line for each of them. Both exports
  do write the file when the repository is present and the file can be created and
  written. Changing the contributors after the tenth changes neither export (for the
  Markdown text, which prints the number of contributors, at the same number).
\<close>

theorem exports_top_contributors:
  "(\<forall>fn doc. ExportJSON sys data filename = Writes fn doc \<longrightarrow>
       TopContributors doc = map contributorExport (take 10 (Contributors data))
       \<and> length (TopContributors doc) = min 10 (length (Contributors data)))
   \<and> (\<forall>fn md. ExportMarkdown sys data filename = Writes fn md \<longrightarrow>
       (\<exists>head. md = head @ ''## Top Contributors\<newline>''
                      @ contributorLines (take 10 (Contributors data)))
       \<and> length (take 10 (Contributors data)) = min 10 (length (Contributors data)))
   \<and> (Repo data \<noteq> None \<and> Create sys filename = None \<and> WriteError sys filename = None \<longrightarrow>
       (\<exists>doc. ExportJSON sys data filename = Writes filename doc)
       \<and> (\<exists>md. ExportMarkdown sys data filename = Writes filename md))
   \<and> (\<forall>cs'. take 10 cs' = take 10 (Contributors data) \<longrightarrow>
       ExportJSON sys (data\<lparr>Contributors := cs'\<rparr>) filename = ExportJSON sys data filename)
   \<and> (\<forall>cs'. take 10 cs' = take 10 (Contributors data) \<and> length cs' = length (Contributors data) \<longrightarrow>
       ExportMarkdown sys (data\<lparr>Contributors := cs'\<rparr>) filename
         = ExportMarkdown sys data filename)"
proof (intro conjI allI impI)
  fix fn doc
  assume w: "ExportJSON sys data filename = Writes fn doc"
  then show t: "TopContributors doc = map contributorExport (take 10 (Contributors data))"
    by (rule ExportJSON_Writes)
  show "length (TopContributors doc) = min 10 (length (Contributors data))"
    unfolding t by (simp add: min.commute)
next
  fix fn md
  assume "ExportMarkdown sys data filename = Writes fn md"
  then show "\<exists>head. md = head @ ''## Top Contributors\<newline>''
                      @ contributorLines (take 10 (Contributors data))"
    by (rule ExportMarkdown_Writes)
  show "length (take 10 (Contributors data)) = min 10 (length (Contributors data))"
    by (simp add: min.commute)
next
  assume a: "Repo data \<noteq> None \<and> Create sys filename = None \<and> WriteError sys filename = None"
  then show "\<exists>doc. ExportJSON sys data filename = Writes filename doc"
    and "\<exists>md. ExportMarkdown sys data filename = Writes filename md"
    using exports_write[of data sys filename] by blast+
next
  fix cs'
  assume "take 10 cs' = take 10 (Contributors data)"
  then show "ExportJSON sys (data\<lparr>Contributors := cs'\<rparr>) filename = ExportJSON sys data filename"
    by (rule ExportJSON_beyond_tenth)
next
  fix cs'
  assume "take 10 cs' = take 10 (Contributors data) \<and> length cs' = length (Contributors data)"
  then show "ExportMarkdown sys (data\<lparr>Contributors := cs'\<rparr>) filename
         = ExportMarkdown sys data filename"
    by (simp add: ExportMarkdown_beyond_tenth)
qed

theorem exports_top_contributors_witness:
  "length (Contributors exampleResult) = 12
   \<and> (\<exists>doc. ExportJSON exampleSystem exampleResult ''report.json'' = Writes ''report.json'' doc
         \<and> map Login' (TopContributors doc)
             = [''ann'', ''bob'', ''cy'', ''dee'', ''eli'', ''fay'', ''gus'', ''hal'', ''ivy'', ''jo''])
   \<and> (\<exists>md head. ExportMarkdown exampleSystem exampleResult ''report.md'' = Writes ''report.md'' md
         \<and> md = head @ ''## Top Contributors\<newline>'' @
             ''1. ann (120 commits)\<newline>2. bob (90 commits)\<newline>3. cy (77 commits)\<newline>'' @
             ''4. dee (60 commits)\<newline>5. eli (41 commits)\<newline>6. fay (30 commits)\<newline>'' @
             ''7. gus (22 commits)\<newline>8. hal (15 commits)\<newline>9. ivy (9 commits)\<newline>'' @
             ''10. jo (4 commits)\<newline>'')"
proof -
  note j = exports_top_contributors[of exampleSystem exampleResult "''report.json''"]
  note m = exports_top_contributors[of exampleSystem exampleResult "''report.md''"]
  have pre: "Repo exampleResult \<noteq> None" "Create exampleSystem ''report.json'' = None"
    "Create exampleSystem ''report.md'' = None" "WriteError exampleSystem ''report.json'' = None"
    "WriteError exampleSystem ''report.md'' = None"
    by (simp_all add: exampleResult_def exampleSystem_def)
  have n: "length (Contributors exampleResult) = 12"
    by (simp add: exampleResult_def exampleContributors_def)
  have top: "map Login' (map contributorExport (take 10 (Contributors exampleResult)))
      = [''ann'', ''bob'', ''cy'', ''dee'', ''eli'', ''fay'', ''gus'', ''hal'', ''ivy'', ''jo'']"
    by (simp add: exampleResult_def exampleContributors_def contributorExport_def)
  have lines: "contributorLines (take 10 (Contributors exampleResult)) =
             ''1. ann (120 commits)\<newline>2. bob (90 commits)\<newline>3. cy (77 commits)\<newline>'' @
             ''4. dee (60 commits)\<newline>5. eli (41 commits)\<newline>6. fay (30 commits)\<newline>'' @
             ''7. gus (22 commits)\<newline>8. hal (15 commits)\<newline>9. ivy (9 commits)\<newline>'' @
             ''10. jo (4 commits)\<newline>''"
    by code_simp
  from j pre obtain doc where d: "ExportJSON exampleSystem exampleResult ''report.json'' = Writes ''report.json'' doc"
    by blast
  with j have "TopContributors doc = map contributorExport (take 10 (Contributors exampleResult))"
    by blast
  with top d have J: "\<exists>doc. ExportJSON exampleSystem exampleResult ''report.json'' = Writes ''report.json'' doc
         \<and> map Login' (TopContributors doc)
             = [''ann'', ''bob'', ''cy'', ''dee'', ''eli'', ''fay'', ''gus'', ''hal'', ''ivy'', ''jo'']"
    by auto
  from m pre obtain md where md: "ExportMarkdown exampleSystem exampleResult ''report.md'' = Writes ''report.md'' md"
    by blast
  with m obtain head where "md = head @ ''## Top Contributors\<newline>''
                      @ contributorLines (take 10 (Contributors exampleResult))"
    by blast
  with md lines have M: "\<exists>md head. ExportMarkdown exampleSystem exampleResult ''report.md'' = Writes ''report.md'' md
         \<and> md = head @ ''## Top Contributors\<newline>'' @
             ''1. ann (120 commits)\<newline>2. bob (90 commits)\<newline>3. cy (77 commits)\<newline>'' @
             ''4. dee (60 commits)\<newline>5. eli (41 commits)\<newline>6. fay (30 commits)\<newline>'' @
             ''7. gus (22 commits)\<newline>8. hal (15 commits)\<newline>9. ivy (9 commits)\<newline>'' @
             ''10. jo (4 commits)\<newline>''"
    by (simp only:) blast
  from n J M show ?thesis by (intro conjI)
qed


end
